theory Spec2Isabelle
  imports Main
begin

section \<open>Python values and exceptions\<close>

text \<open>
  The library codec of \<^verbatim>\<open>Models/Library.py\<close> writes a Python source file and reads it
  back line by line. Exceptions of the source are values of \<open>exn\<close>; a function that may
  raise returns \<open>exn + 'a\<close>. \<open>Unmodelled\<close> is not a Python exception: it marks a payload
  outside the expression fragment embedded below (Python raises \<^verbatim>\<open>SyntaxError\<close> there,
  or evaluates an expression this development does not cover), and no theorem below
  draws a conclusion about Python from it.
\<close>

datatype exn =
    UnboundLocalError
  | IndexError
  | KeyError
  | TypeError
  | ValueError
  | UnknownKind
  | Unmodelled

text \<open>
  Python objects as far as the codec meets them. \<open>PDict\<close> keeps the items of a dict
  display in the order written (a later item with an equal key wins on lookup).
  \<open>PBoxFunction n k b t\<close> is an instance of class \<^verbatim>\<open>BoxFunction\<close> with the attributes
  \<^verbatim>\<open>name\<close>, \<^verbatim>\<open>type\<close>, \<^verbatim>\<open>box\<close> and \<^verbatim>\<open>image\<close>.
\<close>

datatype pyval =
    PNone
  | PBool bool
  | PInt int
  | PStr string
  | PList "pyval list"
  | PDict "(pyval \<times> pyval) list"
  | PBoxFunction pyval pyval pyval pyval

section \<open>Formatting: \<^verbatim>\<open>str.format\<close> on the values the encoder prints\<close>

definition digit_char :: "nat \<Rightarrow> char" where
  "digit_char d = ''0123456789'' ! d"

fun str_nat :: "nat \<Rightarrow> string" where
  "str_nat n = (if n < 10 then [digit_char n] else str_nat (n div 10) @ [digit_char (n mod 10)])"

declare str_nat.simps [simp del]

definition str_int :: "int \<Rightarrow> string" where
  "str_int i = (if i < 0 then CHR ''-'' # str_nat (nat (- i)) else str_nat (nat i))"

fun join_comma :: "string list \<Rightarrow> string" where
  "join_comma [] = []"
| "join_comma [x] = x"
| "join_comma (x # y # ys) = x @ '', '' @ join_comma (y # ys)"

text \<open>\<^verbatim>\<open>str\<close> of a list of ints: \<^verbatim>\<open>[1, 2, 3, 4]\<close>.\<close>

definition str_list :: "int list \<Rightarrow> string" where
  "str_list xs = ''['' @ join_comma (map str_int xs) @ '']''"

text \<open>\<^verbatim>\<open>str\<close> of \<^verbatim>\<open>None\<close> or of a list of ints (the capture region).\<close>

definition str_opt_list :: "int list option \<Rightarrow> string" where
  "str_opt_list b = (case b of None \<Rightarrow> ''None'' | Some xs \<Rightarrow> str_list xs)"

text \<open>\<^verbatim>\<open>str\<close> of \<^verbatim>\<open>None\<close> or of a string (the template image): a string prints raw.\<close>

definition str_opt_str :: "string option \<Rightarrow> string" where
  "str_opt_str i = (case i of None \<Rightarrow> ''None'' | Some s \<Rightarrow> s)"

section \<open>A fragment of Python's expression syntax\<close>

text \<open>
  \<^verbatim>\<open>load_library\<close> hands the text after a tag to \<^verbatim>\<open>ast.literal_eval\<close> (class-level
  line) or to the builtin \<^verbatim>\<open>eval\<close> (function-level line). Both parse the text as a Python
  expression first. The fragment embedded here: \<^verbatim>\<open>None\<close>, \<^verbatim>\<open>True\<close>, \<^verbatim>\<open>False\<close>, decimal
  integers, unary minus, string literals in single or double quotes without escapes,
  list displays, dict displays, names, and calls \<^verbatim>\<open>name(arg, ...)\<close> with positional
  arguments. Anything else does not parse here (\<open>None\<close>).
\<close>

datatype pyexpr =
    ENone
  | EBool bool
  | ENum nat
  | EStr string
  | EName string
  | ENeg pyexpr
  | EList "pyexpr list"
  | EDict "(pyexpr \<times> pyexpr) list"
  | ECall string "pyexpr list"

definition is_space :: "char \<Rightarrow> bool" where
  "is_space c \<longleftrightarrow> c = CHR '' '' \<or> c = CHR 0x09"

definition skip_ws :: "string \<Rightarrow> string" where
  "skip_ws s = dropWhile is_space s"

definition is_digit :: "char \<Rightarrow> bool" where
  "is_digit c \<longleftrightarrow> c \<in> set ''0123456789''"

definition digit_val :: "char \<Rightarrow> nat" where
  "digit_val c = of_char c - 48"

definition nat_of_digits :: "string \<Rightarrow> nat" where
  "nat_of_digits ds = foldl (\<lambda>a c. 10 * a + digit_val c) 0 ds"

definition is_ident_start :: "char \<Rightarrow> bool" where
  "is_ident_start c \<longleftrightarrow>
     c \<in> set ''abcdefghijklmnopqrstuvwxyzABCDEFGHIJKLMNOPQRSTUVWXYZ_''"

definition is_ident_char :: "char \<Rightarrow> bool" where
  "is_ident_char c \<longleftrightarrow> is_ident_start c \<or> is_digit c"

text \<open>Reserved words other than the three constants: they are no names.\<close>

definition py_keywords :: "string list" where
  "py_keywords = [''and'', ''as'', ''assert'', ''async'', ''await'', ''break'', ''class'',
     ''continue'', ''def'', ''del'', ''elif'', ''else'', ''except'', ''finally'', ''for'',
     ''from'', ''global'', ''if'', ''import'', ''in'', ''is'', ''lambda'', ''nonlocal'',
     ''not'', ''or'', ''pass'', ''raise'', ''return'', ''try'', ''while'', ''with'', ''yield'']"

text \<open>
  A character that may stand in a string literal quoted by \<open>q\<close> in this fragment: not the
  quote, not a backslash (escapes are not embedded), no line break, no NUL.
\<close>

definition str_char_ok :: "char \<Rightarrow> char \<Rightarrow> bool" where
  "str_char_ok q c \<longleftrightarrow>
     c \<noteq> q \<and> c \<noteq> CHR 0x5C \<and> c \<noteq> CHR 0x0A \<and> c \<noteq> CHR 0x0D \<and> c \<noteq> CHR 0x00"

definition parse_string :: "char \<Rightarrow> string \<Rightarrow> (pyexpr \<times> string) option" where
  "parse_string q cs =
     (let body = takeWhile (\<lambda>c. c \<noteq> q) cs; rest = dropWhile (\<lambda>c. c \<noteq> q) cs
      in if rest = [] then None
         else if list_all (str_char_ok q) body then Some (EStr body, tl rest)
         else None)"

definition parse_number :: "string \<Rightarrow> (pyexpr \<times> string) option" where
  "parse_number cs =
     (let ds = takeWhile is_digit cs; rest = dropWhile is_digit cs
      in if 1 < length ds \<and> hd ds = CHR ''0'' then None
         else if rest \<noteq> [] \<and> (is_ident_char (hd rest) \<or> hd rest = CHR ''.'') then None
         else Some (ENum (nat_of_digits ds), rest))"

text \<open>
  The recursive descent, with fuel for the nesting: \<open>parse_expr\<close> reads one expression
  and returns the rest of the text; \<open>parse_items close\<close> reads comma-separated
  expressions up to the closing bracket (a trailing comma is allowed, as in Python);
  \<open>parse_pairs\<close> reads \<^verbatim>\<open>key: value\<close> items up to the closing brace.
\<close>

fun parse_expr :: "nat \<Rightarrow> string \<Rightarrow> (pyexpr \<times> string) option"
  and parse_items :: "nat \<Rightarrow> char \<Rightarrow> string \<Rightarrow> (pyexpr list \<times> string) option"
  and parse_pairs :: "nat \<Rightarrow> string \<Rightarrow> ((pyexpr \<times> pyexpr) list \<times> string) option"
where
  "parse_expr 0 s = None"
| "parse_expr (Suc n) [] = None"
| "parse_expr (Suc n) (c # cs) =
     (if c = CHR ''['' then
        (case parse_items n (CHR '']'') cs of
           None \<Rightarrow> None
         | Some (es, r) \<Rightarrow> Some (EList es, r))
      else if c = CHR ''{'' then
        (case parse_pairs n cs of
           None \<Rightarrow> None
         | Some (kvs, r) \<Rightarrow> Some (EDict kvs, r))
      else if c = CHR ''-'' then
        (case parse_expr n (skip_ws cs) of
           None \<Rightarrow> None
         | Some (e, r) \<Rightarrow> Some (ENeg e, r))
      else if c = CHR 0x27 \<or> c = CHR 0x22 then parse_string c cs
      else if is_digit c then parse_number (c # cs)
      else if is_ident_start c then
        (let nm = takeWhile is_ident_char (c # cs);
             r = skip_ws (dropWhile is_ident_char (c # cs))
         in if nm = ''None'' then Some (ENone, r)
            else if nm = ''True'' then Some (EBool True, r)
            else if nm = ''False'' then Some (EBool False, r)
            else if nm \<in> set py_keywords then None
            else (case r of
                    [] \<Rightarrow> Some (EName nm, r)
                  | d # r' \<Rightarrow>
                      if d = CHR ''('' then
                        (case parse_items n (CHR '')'') r' of
                           None \<Rightarrow> None
                         | Some (args, r'') \<Rightarrow> Some (ECall nm args, r''))
                      else Some (EName nm, r)))
      else None)"
| "parse_items 0 close s = None"
| "parse_items (Suc n) close s =
     (case skip_ws s of
        [] \<Rightarrow> None
      | c # cs \<Rightarrow>
          if c = close then Some ([], cs)
          else (case parse_expr n (c # cs) of
                  None \<Rightarrow> None
                | Some (e, r) \<Rightarrow>
                    (case skip_ws r of
                       [] \<Rightarrow> None
                     | d # r' \<Rightarrow>
                         if d = close then Some ([e], r')
                         else if d = CHR '','' then
                           (case parse_items n close r' of
                              None \<Rightarrow> None
                            | Some (es, r'') \<Rightarrow> Some (e # es, r''))
                         else None)))"
| "parse_pairs 0 s = None"
| "parse_pairs (Suc n) s =
     (case skip_ws s of
        [] \<Rightarrow> None
      | c # cs \<Rightarrow>
          if c = CHR ''}'' then Some ([], cs)
          else (case parse_expr n (c # cs) of
                  None \<Rightarrow> None
                | Some (k, r) \<Rightarrow>
                    (case skip_ws r of
                       [] \<Rightarrow> None
                     | d # r' \<Rightarrow>
                         if d \<noteq> CHR '':'' then None
                         else (case parse_expr n (skip_ws r') of
                                 None \<Rightarrow> None
                               | Some (v, r'') \<Rightarrow>
                                   (case skip_ws r'' of
                                      [] \<Rightarrow> None
                                    | d' # r3 \<Rightarrow>
                                        if d' = CHR ''}'' then Some ([(k, v)], r3)
                                        else if d' = CHR '','' then
                                          (case parse_pairs n r3 of
                                             None \<Rightarrow> None
                                           | Some (kvs, r4) \<Rightarrow> Some ((k, v) # kvs, r4))
                                        else None)))))"

text \<open>
  The whole payload is one expression; blanks and the line's own newline may follow it.
  The fuel bounds the nesting depth plus the number of items read; it grows with the
  length of the text.
\<close>

definition py_parse :: "string \<Rightarrow> pyexpr option" where
  "py_parse s =
     (case parse_expr (2 * length s + 2) (skip_ws s) of
        None \<Rightarrow> None
      | Some (e, r) \<Rightarrow>
          if list_all (\<lambda>c. is_space c \<or> c = CHR 0x0A) r then Some e else None)"

section \<open>\<^verbatim>\<open>ast.literal_eval\<close> and \<^verbatim>\<open>eval\<close>\<close>

definition hashable :: "pyval \<Rightarrow> bool" where
  "hashable v = (case v of PList _ \<Rightarrow> False | PDict _ \<Rightarrow> False | _ \<Rightarrow> True)"

text \<open>
  \<^verbatim>\<open>ast.literal_eval\<close> converts the parsed expression node by node and raises
  \<^verbatim>\<open>ValueError\<close> ("malformed node or string") on anything that is not a literal: a name,
  a call, a minus sign before anything but a number. A dict is built item by item, so an
  unhashable key raises \<^verbatim>\<open>TypeError\<close> before the next item is converted.
\<close>

function (sequential) literal_convert :: "pyexpr \<Rightarrow> exn + pyval"
  and literal_convert_list :: "pyexpr list \<Rightarrow> exn + pyval list"
  and literal_convert_pairs :: "(pyexpr \<times> pyexpr) list \<Rightarrow> exn + (pyval \<times> pyval) list"
where
  "literal_convert ENone = Inr PNone"
| "literal_convert (EBool b) = Inr (PBool b)"
| "literal_convert (ENum n) = Inr (PInt (int n))"
| "literal_convert (EStr s) = Inr (PStr s)"
| "literal_convert (EName nm) = Inl ValueError"
| "literal_convert (ENeg e) =
     (case e of ENum n \<Rightarrow> Inr (PInt (- int n)) | _ \<Rightarrow> Inl ValueError)"
| "literal_convert (EList es) =
     (case literal_convert_list es of Inl x \<Rightarrow> Inl x | Inr vs \<Rightarrow> Inr (PList vs))"
| "literal_convert (EDict kvs) =
     (case literal_convert_pairs kvs of Inl x \<Rightarrow> Inl x | Inr ps \<Rightarrow> Inr (PDict ps))"
| "literal_convert (ECall f args) = Inl ValueError"
| "literal_convert_list [] = Inr []"
| "literal_convert_list (e # es) =
     (case literal_convert e of
        Inl x \<Rightarrow> Inl x
      | Inr v \<Rightarrow> (case literal_convert_list es of Inl x \<Rightarrow> Inl x | Inr vs \<Rightarrow> Inr (v # vs)))"
| "literal_convert_pairs [] = Inr []"
| "literal_convert_pairs ((k, v) # kvs) =
     (case literal_convert k of
        Inl x \<Rightarrow> Inl x
      | Inr kv \<Rightarrow>
          (case literal_convert v of
             Inl x \<Rightarrow> Inl x
           | Inr vv \<Rightarrow>
               if \<not> hashable kv then Inl TypeError
               else (case literal_convert_pairs kvs of
                       Inl x \<Rightarrow> Inl x
                     | Inr ps \<Rightarrow> Inr ((kv, vv) # ps))))"

  by pat_completeness auto
termination
  by (relation "measure (\<lambda>x. case x of
         Inl e \<Rightarrow> 2 * size e
       | Inr (Inl es) \<Rightarrow> 2 * size_list size es + 1
       | Inr (Inr kvs) \<Rightarrow> 2 * size_list (size_prod size size) kvs + 1)")
     auto

definition literal_eval :: "string \<Rightarrow> exn + pyval" where
  "literal_eval s = (case py_parse s of None \<Rightarrow> Inl Unmodelled | Some e \<Rightarrow> literal_convert e)"

text \<open>
  The extraction kinds: the strings \<^verbatim>\<open>create_library\<close> dispatches on
  (\<^verbatim>\<open>function.type == "string"\<close>, \<^verbatim>\<open>"number"\<close>, \<^verbatim>\<open>"position"\<close>), which the
  specification calls Text, Number and TemplateMatch.
\<close>

definition kinds :: "string list" where
  "kinds = [''string'', ''number'', ''position'']"

text \<open>
  Modelled from the spec: the constructor of class \<^verbatim>\<open>BoxFunction\<close>
  (\<^verbatim>\<open>Models/BoxFunction.py\<close>, imported by \<^verbatim>\<open>Library.py\<close>, is not among the sources). The
  specification gives a rule the four fields (name, kind, box, templateImage), in the
  order the encoder prints them, and makes a kind outside the closed set an error
  (\<^verbatim>\<open>UnknownKind\<close>); a call with another number of arguments is Python's \<^verbatim>\<open>TypeError\<close>.
\<close>

fun BoxFunction_init :: "pyval list \<Rightarrow> exn + pyval" where
  "BoxFunction_init [n, k, b, t] =
     (if k \<in> set (map PStr kinds) then Inr (PBoxFunction n k b t) else Inl UnknownKind)"
| "BoxFunction_init args = Inl TypeError"

text \<open>
  The builtin \<^verbatim>\<open>eval\<close> on the fragment. It evaluates what \<^verbatim>\<open>literal_eval\<close> refuses: a
  call of \<^verbatim>\<open>BoxFunction\<close> runs the constructor on the evaluated arguments, and a minus
  sign applies to any number. Every item of a dict display is evaluated before the dict
  is built. What a name other than the called \<^verbatim>\<open>BoxFunction\<close> stands for depends on the
  scope of \<^verbatim>\<open>load_library\<close> and is left out (\<open>Unmodelled\<close>).
\<close>

function (sequential) eval_expr :: "pyexpr \<Rightarrow> exn + pyval"
  and eval_list :: "pyexpr list \<Rightarrow> exn + pyval list"
  and eval_pairs :: "(pyexpr \<times> pyexpr) list \<Rightarrow> exn + (pyval \<times> pyval) list"
where
  "eval_expr ENone = Inr PNone"
| "eval_expr (EBool b) = Inr (PBool b)"
| "eval_expr (ENum n) = Inr (PInt (int n))"
| "eval_expr (EStr s) = Inr (PStr s)"
| "eval_expr (EName nm) = Inl Unmodelled"
| "eval_expr (ENeg e) =
     (case eval_expr e of
        Inl x \<Rightarrow> Inl x
      | Inr v \<Rightarrow>
          (case v of
             PInt i \<Rightarrow> Inr (PInt (- i))
           | PBool b \<Rightarrow> Inr (PInt (if b then - 1 else 0))
           | _ \<Rightarrow> Inl TypeError))"
| "eval_expr (EList es) =
     (case eval_list es of Inl x \<Rightarrow> Inl x | Inr vs \<Rightarrow> Inr (PList vs))"
| "eval_expr (EDict kvs) =
     (case eval_pairs kvs of
        Inl x \<Rightarrow> Inl x
      | Inr ps \<Rightarrow> if list_all (\<lambda>p. hashable (fst p)) ps then Inr (PDict ps) else Inl TypeError)"
| "eval_expr (ECall f args) =
     (if f = ''BoxFunction'' then
        (case eval_list args of Inl x \<Rightarrow> Inl x | Inr vs \<Rightarrow> BoxFunction_init vs)
      else Inl Unmodelled)"
| "eval_list [] = Inr []"
| "eval_list (e # es) =
     (case eval_expr e of
        Inl x \<Rightarrow> Inl x
      | Inr v \<Rightarrow> (case eval_list es of Inl x \<Rightarrow> Inl x | Inr vs \<Rightarrow> Inr (v # vs)))"
| "eval_pairs [] = Inr []"
| "eval_pairs ((k, v) # kvs) =
     (case eval_expr k of
        Inl x \<Rightarrow> Inl x
      | Inr kv \<Rightarrow>
          (case eval_expr v of
             Inl x \<Rightarrow> Inl x
           | Inr vv \<Rightarrow>
               (case eval_pairs kvs of Inl x \<Rightarrow> Inl x | Inr ps \<Rightarrow> Inr ((kv, vv) # ps))))"

  by pat_completeness auto
termination
  by (relation "measure (\<lambda>x. case x of
         Inl e \<Rightarrow> 2 * size e
       | Inr (Inl es) \<Rightarrow> 2 * size_list size es + 1
       | Inr (Inr kvs) \<Rightarrow> 2 * size_list (size_prod size size) kvs + 1)")
     auto

definition py_eval :: "string \<Rightarrow> exn + pyval" where
  "py_eval s = (case py_parse s of None \<Rightarrow> Inl Unmodelled | Some e \<Rightarrow> eval_expr e)"

text \<open>\<^verbatim>\<open>d[key]\<close> with a string key: only a dict has such an item.\<close>

fun getitem_str :: "pyval \<Rightarrow> string \<Rightarrow> exn + pyval" where
  "getitem_str (PDict kvs) key =
     (case map_of (rev kvs) (PStr key) of None \<Rightarrow> Inl KeyError | Some v \<Rightarrow> Inr v)"
| "getitem_str v key = Inl TypeError"

section \<open>The rule model\<close>

text \<open>
  The encoder reads the attributes \<^verbatim>\<open>name\<close>, \<^verbatim>\<open>type\<close>, \<^verbatim>\<open>box\<close> and \<^verbatim>\<open>image\<close> of each
  rule. Here a rule's name and type are strings, its box a list of ints and its image
  \<^verbatim>\<open>None\<close> or a string. \<open>BoxFunction_val\<close> is the Python object such a rule is.
\<close>

record BoxFunction =
  name :: string
  type :: string
  box :: "int list"
  image :: "string option"

definition BoxFunction_val :: "BoxFunction \<Rightarrow> pyval" where
  "BoxFunction_val f =
     PBoxFunction (PStr (name f)) (PStr (type f)) (PList (map PInt (box f)))
       (case image f of None \<Rightarrow> PNone | Some s \<Rightarrow> PStr s)"

record Library =
  destination :: string
  screen_box :: "int list option"
  directory :: string
  lib_functions :: "BoxFunction list"

text \<open>\<^verbatim>\<open>Library.__init__\<close> stores its four arguments; it has no other statement.\<close>

definition Library_init ::
  "string \<Rightarrow> int list option \<Rightarrow> string \<Rightarrow> BoxFunction list \<Rightarrow> exn + Library" where
  "Library_init dest sb dir fs =
     Inr \<lparr>destination = dest, screen_box = sb, directory = dir, lib_functions = fs\<rparr>"

section \<open>The encoder: \<^verbatim>\<open>Library.create_library\<close>\<close>

text \<open>
  \<^verbatim>\<open>create_library\<close> writes the artifact with a sequence of \<^verbatim>\<open>file.write\<close> calls. Each
  list below holds the strings of one stretch of the source, in the order written; the
  text of the file is their concatenation. \<open>cls\<close> is the class name,
  \<^verbatim>\<open>os.path.basename(os.path.normpath(destination))\<close>, taken as given.
\<close>

definition imports_chunks :: "string list" where
  "imports_chunks =
    [''import random\<newline>'',
     ''import numpy\<newline>'',
     ''import cv2\<newline>'',
     ''import pyocr\<newline>'',
     ''import pyocr.builders\<newline>'',
     ''from PIL import Image, ImageFilter\<newline>'',
     ''from mss import mss\<newline>'',
     ''\<newline>\<newline>'']"

text \<open>The class-level metadata line: the tag \<^verbatim>\<open># c\<close>, a blank, and a dict display.\<close>

definition class_line :: "int list option \<Rightarrow> string \<Rightarrow> string" where
  "class_line sb dir =
     ''# c {'screen_box': '' @ str_opt_list sb @ '', 'directory': '' @ CHR 0x27 # dir
        @ CHR 0x27 # ''}\<newline>''"

definition class_chunks :: "string \<Rightarrow> int list option \<Rightarrow> string \<Rightarrow> string list" where
  \<open>class_chunks cls sb dir =
    [''class '' @ cls @ ''(object):\<newline>'',
     class_line sb dir,
     ''\<newline>'',
     ''    def __init__(self):\<newline>'',
     ''        self.img = None\<newline>'',
     ''        tools = pyocr.get_available_tools()\<newline>'',
     ''        if len(tools) == 0:\<newline>'',
     ''            print('No OCR tool found')\<newline>'',
     ''            sys.exit(1)\<newline>'',
     ''        self.tool = tools[0]\<newline>'',
     ''        print("Will use tool '%s'" % (self.tool.get_name()))\<newline>'',
     ''\<newline>'']\<close>

text \<open>\<^verbatim>\<open>if screen_box:\<close> is false for \<^verbatim>\<open>None\<close> and for the empty list.\<close>

definition truthy :: "int list option \<Rightarrow> bool" where
  "truthy sb = (case sb of None \<Rightarrow> False | Some xs \<Rightarrow> xs \<noteq> [])"

definition grab_chunks :: "int list option \<Rightarrow> string list" where
  "grab_chunks sb =
    [''    def grab_screen(self):\<newline>'',
     ''        with mss() as sct:\<newline>'',
     (if truthy sb then ''            img = sct.grab('' @ str_opt_list sb @ '')\<newline>''
      else ''            img = sct.shot()\<newline>''),
     ''        self.img = Image.frombytes('RGB', img.size, img.rgb)\<newline>'',
     ''        return self.img\<newline>'',
     ''\<newline>'']"

definition header_chunks :: "string \<Rightarrow> int list option \<Rightarrow> string \<Rightarrow> string list" where
  "header_chunks cls sb dir = imports_chunks @ class_chunks cls sb dir @ grab_chunks sb"

text \<open>
  The body of the \<^verbatim>\<open>for\<close> loop: one \<^verbatim>\<open>file.write\<close> of three lines per rule. The
  arguments of \<^verbatim>\<open>format\<close> read \<^verbatim>\<open>function.box[0]\<close> to \<^verbatim>\<open>function.box[3]\<close>; the loop below
  raises \<^verbatim>\<open>IndexError\<close> for a shorter box before it writes.
\<close>

definition def_line :: "BoxFunction \<Rightarrow> string" where
  "def_line f = ''    def '' @ name f @ ''(self):\<newline>''"

text \<open>The function-level metadata line: the tag \<^verbatim>\<open># f\<close>, a blank, and a constructor call.\<close>

definition meta_line :: "BoxFunction \<Rightarrow> string" where
  "meta_line f =
     ''# f BoxFunction('' @ CHR 0x27 # name f @ CHR 0x27 # '', '' @ CHR 0x27 # type f
        @ CHR 0x27 # '', '' @ str_list (box f) @ '', '' @ str_opt_str (image f) @ '')\<newline>''"

definition crop_line :: "BoxFunction \<Rightarrow> string" where
  "crop_line f =
     ''cropped = self.img.crop(['' @ str_int (box f ! 0) @ '', '' @ str_int (box f ! 1)
        @ '', '' @ str_int (box f ! 0 + box f ! 2) @ '', '' @ str_int (box f ! 1 + box f ! 3)
        @ ''])\<newline>''"

definition function_chunks :: "BoxFunction \<Rightarrow> string list" where
  "function_chunks f = [def_line f, meta_line f, crop_line f]"

fun write_functions :: "BoxFunction list \<Rightarrow> string list \<times> exn option" where
  "write_functions [] = ([], None)"
| "write_functions (f # fs) =
     (if length (box f) < 4 then ([], Some IndexError)
      else (case write_functions fs of (cs, e) \<Rightarrow> (function_chunks f @ cs, e)))"

text \<open>
  The \<^verbatim>\<open>if\<close>/\<^verbatim>\<open>elif\<close> chain on \<^verbatim>\<open>function.type\<close> stands after the loop, at the loop's own
  indentation: it runs once, on the rule the loop variable was last bound to.
\<close>

definition body_chunks :: "BoxFunction \<Rightarrow> string list" where
  \<open>body_chunks f =
    (if type f = ''string'' then
       [''        return self.tool.image_to_string(cropped, lang="eng", builder=pyocr.builders.TextBuilder())\<newline>'']
     else if type f = ''number'' then
       [''        im = cropped.filter(ImageFilter.EDGE_ENHANCE_MORE)\<newline>'',
        ''        npcropped = numpy.array(im)[:, :, ::-1].copy()\<newline>'',
        ''        npcropped = cv2.resize(npcropped, (0,0), fx=3, fy=3)\<newline>'',
        ''        im = Image.fromarray(npcropped)\<newline>'',
        ''        im = im.convert('L')\<newline>'',
        ''        im = im.point(lambda x: 0 if x<100 else 255, '1')\<newline>'',
        ''        return float(self.tool.image_to_string(im, lang="eng", builder=pyocr.builders.TextBuilder()))\<newline>'']
     else if type f = ''position'' then
       [''        image = cv2.("'' @ str_opt_str (image f) @ ''")\<newline>'',
        ''        cropped = numpy.array(cropped)[:, :, ::-1].copy()\<newline>'',
        ''        \<newline>'',
        ''        res = cv2.matchTemplate(cropped, image, cv2.TM_CCOEFF_NORMED)\<newline>'',
        ''        threshold = 0.8\<newline>'',
        ''        loc = np.where( res >= threshold)\<newline>'',
        ''        return loc\<newline>'',
        ''\<newline>'']
     else [])\<close>

text \<open>
  The result is the text written to the file and the exception that ended the call, if
  any (the \<^verbatim>\<open>with\<close> block closes the file either way, so what was written stays). With
  no rule the loop variable \<^verbatim>\<open>function\<close> is unbound when the chain reads it.
\<close>

definition create_library ::
  "string \<Rightarrow> int list option \<Rightarrow> string \<Rightarrow> BoxFunction list \<Rightarrow> string \<times> exn option" where
  "create_library cls sb dir fs =
     (case write_functions fs of
        (cs, Some x) \<Rightarrow> (concat (header_chunks cls sb dir @ cs), Some x)
      | (cs, None) \<Rightarrow>
          (case fs of
             [] \<Rightarrow> (concat (header_chunks cls sb dir @ cs), Some UnboundLocalError)
           | _ # _ \<Rightarrow>
               (concat (header_chunks cls sb dir @ cs @ body_chunks (last fs) @ [''\<newline>'']),
                None)))"

section \<open>The decoder: \<^verbatim>\<open>Library.load_library\<close>\<close>

text \<open>
  \<^verbatim>\<open>file.readlines()\<close> of a file opened in text mode: every line keeps its line break,
  read as \<^verbatim>\<open>\n\<close> whether the file has \<^verbatim>\<open>\n\<close>, \<^verbatim>\<open>\r\n\<close> or \<^verbatim>\<open>\r\<close>; a last line without a
  line break is a line too.
\<close>

fun readlines :: "string \<Rightarrow> string list" where
  "readlines [] = []"
| "readlines (c # cs) =
     (if c = CHR 0x0A then [CHR 0x0A] # readlines cs
      else if c = CHR 0x0D then
        (case cs of
           [] \<Rightarrow> [[CHR 0x0A]]
         | d # ds \<Rightarrow> [CHR 0x0A] # (if d = CHR 0x0A then readlines ds else readlines cs))
      else (case readlines cs of
              [] \<Rightarrow> [[c]]
            | l # ls \<Rightarrow> (c # l) # ls))"

text \<open>
  The \<^verbatim>\<open>while\<close> loop of \<^verbatim>\<open>load_library\<close>, with the loop variables \<^verbatim>\<open>i\<close>, \<^verbatim>\<open>directory\<close>
  and \<^verbatim>\<open>functions\<close> as arguments. The \<^verbatim>\<open>print\<close> calls are left out. An exception of
  \<^verbatim>\<open>ast.literal_eval\<close>, of the subscript or of \<^verbatim>\<open>eval\<close> is not caught: it ends the call.
\<close>

function load_loop :: "string list \<Rightarrow> nat \<Rightarrow> pyval \<Rightarrow> pyval list \<Rightarrow> exn + (pyval \<times> pyval list)" where
  "load_loop lines i dir fs =
     (if i < length lines then
        (if length (lines ! i) < 4 then load_loop lines (i + 1) dir fs
         else if take 3 (lines ! i) = ''# c'' then
           (case literal_eval (drop 4 (lines ! i)) of
              Inl x \<Rightarrow> Inl x
            | Inr class_data \<Rightarrow>
                (case getitem_str class_data ''directory'' of
                   Inl x \<Rightarrow> Inl x
                 | Inr d \<Rightarrow> load_loop lines (i + 8 + 1) d fs))
         else if take 3 (lines ! i) = ''# f'' then
           (case py_eval (drop 4 (lines ! i)) of
              Inl x \<Rightarrow> Inl x
            | Inr f \<Rightarrow> load_loop lines (i + 2 + 1) dir (fs @ [f]))
         else load_loop lines (i + 1) dir fs)
      else Inr (dir, fs))"
  by pat_completeness auto
termination
  by (relation "measure (\<lambda>(lines, i, dir, fs). length lines - i)") auto

declare load_loop.simps [simp del]

text \<open>
  \<^verbatim>\<open>load_library\<close> on the text of the file at \<^verbatim>\<open>destination\<close>: the scan starts at
  \<^verbatim>\<open>i = 3\<close> with \<^verbatim>\<open>directory = None\<close> and \<^verbatim>\<open>functions = []\<close>, and the call returns the
  pair \<^verbatim>\<open>directory, functions\<close>.
\<close>

definition load_library :: "string \<Rightarrow> exn + (pyval \<times> pyval list)" where
  "load_library text = load_loop (readlines text) 3 PNone []"

section \<open>The capture loop: \<^verbatim>\<open>CreateView\<close>\<close>

text \<open>
  \<^verbatim>\<open>CreateView\<close> keeps \<^verbatim>\<open>self.box\<close> (the int \<^verbatim>\<open>0\<close> for the full screen, otherwise a
  rectangle handed to \<^verbatim>\<open>ImageGrab.grab\<close>) and the flag \<^verbatim>\<open>self.capture_screen\<close>; the value
  of the widget \<^verbatim>\<open>frequency_spin_box\<close> is the requested period.
\<close>

datatype box_attr = IntBox int | RectBox "int list"

record CreateView =
  cv_box :: box_attr
  capture_screen :: bool
  frequency_spin_box :: int

text \<open>
  What the handlers do to the world is a trace of events, in order. The clock is read
  through \<open>clock\<close>: \<open>clock w k\<close> is what the \<open>k\<close>-th call of \<^verbatim>\<open>datetime.now()\<close> returns,
  and \<open>reads\<close> counts the calls made.
\<close>

datatype event =
    Print string
  | MakeDirs string
  | Grab
  | GrabBox "int list"
  | Save string

record datetime =
  month :: nat
  day :: nat
  hour :: nat
  minute :: nat
  second :: nat

record world =
  clock :: "nat \<Rightarrow> datetime"
  reads :: nat
  dirs :: "string list"
  trace :: "event list"

definition two_digits :: "nat \<Rightarrow> string" where
  "two_digits n = [digit_char (n div 10 mod 10), digit_char (n mod 10)]"

text \<open>\<^verbatim>\<open>strftime('%m%d_%H:%M:%S')\<close> and \<^verbatim>\<open>strftime('%m%d_%H_%M_%S')\<close>.\<close>

definition strftime_folder :: "datetime \<Rightarrow> string" where
  "strftime_folder t =
     two_digits (month t) @ two_digits (day t) @ ''_'' @ two_digits (hour t) @ '':''
       @ two_digits (minute t) @ '':'' @ two_digits (second t)"

definition strftime_file :: "datetime \<Rightarrow> string" where
  "strftime_file t =
     two_digits (month t) @ two_digits (day t) @ ''_'' @ two_digits (hour t) @ ''_''
       @ two_digits (minute t) @ ''_'' @ two_digits (second t)"

definition CreateView_init :: "int \<Rightarrow> CreateView" where
  "CreateView_init freq = \<lparr>cv_box = IntBox 0, capture_screen = False, frequency_spin_box = freq\<rparr>"

text \<open>
  \<^verbatim>\<open>onclicked_start\<close> up to its loops: it prints, sets the flag, reads the period into
  the local \<^verbatim>\<open>speed\<close> (which no later statement reads), names the folder after the
  clock and creates it if it does not exist. The result is the view, the world and the
  local \<^verbatim>\<open>time_folder\<close>.
\<close>

definition onclicked_start_begin :: "CreateView \<Rightarrow> world \<Rightarrow> CreateView \<times> world \<times> string" where
  "onclicked_start_begin s w =
     (let w1 = w\<lparr>trace := trace w @ [Print (''start '' @ str_int (frequency_spin_box s))]\<rparr>;
          s1 = s\<lparr>capture_screen := True\<rparr>;
          speed = frequency_spin_box s1;
          time_folder = strftime_folder (clock w1 (reads w1));
          w2 = w1\<lparr>reads := reads w1 + 1\<rparr>;
          directory = ''./'' @ time_folder;
          w3 = (if directory \<in> set (dirs w2) then w2
                else w2\<lparr>dirs := directory # dirs w2, trace := trace w2 @ [MakeDirs directory]\<rparr>)
      in (s1, w3, time_folder))"

text \<open>
  One pass through the body of either \<^verbatim>\<open>while\<close> loop: grab (\<open>grab\<close> is the event of
  \<^verbatim>\<open>ImageGrab.grab()\<close> in the first loop, of \<^verbatim>\<open>ImageGrab.grab(self.box)\<close> in the second),
  then save under a name made from the clock.
\<close>

definition capture_tick :: "event \<Rightarrow> string \<Rightarrow> CreateView \<times> world \<Rightarrow> CreateView \<times> world" where
  "capture_tick grab time_folder sw =
     (case sw of (s, w) \<Rightarrow>
        (s, w\<lparr>reads := reads w + 1,
              trace := trace w @
                [grab,
                 Save (''./'' @ time_folder @ ''/'' @ strftime_file (clock w (reads w)) @ ''.png'')]\<rparr>))"

text \<open>
  \<^verbatim>\<open>while self.capture_screen:\<close> around that body. The loop may run forever: not
  returning is the value \<open>None\<close>.
\<close>

partial_function (option) capture_loop ::
  "event \<Rightarrow> string \<Rightarrow> CreateView \<times> world \<Rightarrow> (CreateView \<times> world) option" where
  "capture_loop grab time_folder sw =
     (if capture_screen (fst sw) then capture_loop grab time_folder (capture_tick grab time_folder sw)
      else Some sw)"

text \<open>\<^verbatim>\<open>onclicked_start\<close>: the first loop if \<^verbatim>\<open>self.box\<close> is an int, the second otherwise.\<close>

definition onclicked_start :: "CreateView \<Rightarrow> world \<Rightarrow> (CreateView \<times> world) option" where
  "onclicked_start s w =
     (case onclicked_start_begin s w of (s1, w1, time_folder) \<Rightarrow>
        (case cv_box s1 of
           IntBox n \<Rightarrow> capture_loop Grab time_folder (s1, w1)
         | RectBox b \<Rightarrow> capture_loop (GrabBox b) time_folder (s1, w1)))"

text \<open>\<^verbatim>\<open>onclicked_stop\<close> has one statement: \<^verbatim>\<open>print("stop")\<close>.\<close>

definition onclicked_stop :: "CreateView \<times> world \<Rightarrow> CreateView \<times> world" where
  "onclicked_stop sw = (case sw of (s, w) \<Rightarrow> (s, w\<lparr>trace := trace w @ [Print ''stop'']\<rparr>))"

section \<open>Notions used in the statements\<close>

text \<open>A string that holds no line break.\<close>

definition no_nl :: "string \<Rightarrow> bool" where
  "no_nl s \<longleftrightarrow> CHR 0x0A \<notin> set s \<and> CHR 0x0D \<notin> set s"

text \<open>A line as \<^verbatim>\<open>readlines\<close> returns it when the file ends in a line break.\<close>

definition is_line :: "string \<Rightarrow> bool" where
  "is_line l \<longleftrightarrow> l \<noteq> [] \<and> last l = CHR 0x0A \<and> no_nl (butlast l)"

text \<open>
  A string that reads back unchanged between single quotes: no single quote, no
  backslash, no line break, no NUL.
\<close>

definition plain :: "string \<Rightarrow> bool" where
  "plain s \<longleftrightarrow> list_all (str_char_ok (CHR 0x27)) s"

text \<open>A line the scan passes over: too short for a tag, or without one.\<close>

definition untagged :: "string \<Rightarrow> bool" where
  "untagged l \<longleftrightarrow> length l < 4 \<or> (take 3 l \<noteq> ''# c'' \<and> take 3 l \<noteq> ''# f'')"

text \<open>
  A line the scan takes for a class-level record, and one it takes for a function-level
  record, when it stands on it.
\<close>

definition class_tagged :: "string \<Rightarrow> bool" where
  "class_tagged l \<longleftrightarrow> 4 \<le> length l \<and> take 3 l = ''# c''"

definition function_tagged :: "string \<Rightarrow> bool" where
  "function_tagged l \<longleftrightarrow> 4 \<le> length l \<and> take 3 l = ''# f''"

text \<open>
  A line index the scan cannot jump over: it is not one of the first three lines, no
  line with the class-level tag is among the eight lines before it and no line with the
  function-level tag among the two lines before it (lines before index 3 do not count).
\<close>

definition in_scan :: "string list \<Rightarrow> nat \<Rightarrow> bool" where
  "in_scan ls j \<longleftrightarrow>
     3 \<le> j \<and> (\<forall>k\<in>{3..<j}. (class_tagged (ls ! k) \<longrightarrow> k + 8 < j)
                          \<and> (function_tagged (ls ! k) \<longrightarrow> k + 2 < j))"

text \<open>The expression a printed int parses to, and the separators that may follow it.\<close>

definition int_expr :: "int \<Rightarrow> pyexpr" where
  "int_expr i = (if i < 0 then ENeg (ENum (nat (- i))) else ENum (nat i))"

definition is_sep :: "char \<Rightarrow> bool" where
  "is_sep c \<longleftrightarrow> c = CHR '','' \<or> c = CHR '']''"

text \<open>The Python value of a capture region.\<close>

definition screen_box_val :: "int list option \<Rightarrow> pyval" where
  "screen_box_val sb = (case sb of None \<Rightarrow> PNone | Some xs \<Rightarrow> PList (map PInt xs))"

text \<open>
  A rule whose metadata line reads back as the rule: a plain name, a kind of the closed
  set and no template image (\<^verbatim>\<open>None\<close>).
\<close>

definition reads_back :: "BoxFunction \<Rightarrow> bool" where
  "reads_back f \<longleftrightarrow> plain (name f) \<and> type f \<in> set kinds \<and> image f = None"

text \<open>
  The lines of a complete artifact: the import lines and the two empty lines, the class
  block, the capture operation, three lines per rule, the body written after the loop
  and the closing empty line.
\<close>

definition artifact_lines ::
  "string \<Rightarrow> int list option \<Rightarrow> string \<Rightarrow> BoxFunction list \<Rightarrow> string list" where
  "artifact_lines cls sb dir fs =
     butlast imports_chunks @ [''\<newline>'', ''\<newline>''] @ class_chunks cls sb dir @ grab_chunks sb
       @ concat (map function_chunks fs) @ body_chunks (last fs) @ [''\<newline>'']"

text \<open>
  Following the specification's words, a literal is a number, a string, a boolean,
  \<^verbatim>\<open>None\<close>, or a sequence or record of literals (a minus sign may stand before a
  number); a name or a call is none.
\<close>

function (sequential) is_literal :: "pyexpr \<Rightarrow> bool"
  and is_literal_list :: "pyexpr list \<Rightarrow> bool"
  and is_literal_pairs :: "(pyexpr \<times> pyexpr) list \<Rightarrow> bool"
where
  "is_literal ENone = True"
| "is_literal (EBool b) = True"
| "is_literal (ENum n) = True"
| "is_literal (EStr s) = True"
| "is_literal (EName nm) = False"
| "is_literal (ENeg e) = (case e of ENum n \<Rightarrow> True | _ \<Rightarrow> False)"
| "is_literal (EList es) = is_literal_list es"
| "is_literal (EDict kvs) = is_literal_pairs kvs"
| "is_literal (ECall f args) = False"
| "is_literal_list [] = True"
| "is_literal_list (e # es) = (is_literal e \<and> is_literal_list es)"
| "is_literal_pairs [] = True"
| "is_literal_pairs ((k, v) # kvs) = (is_literal k \<and> is_literal v \<and> is_literal_pairs kvs)"
  by pat_completeness auto
termination
  by (relation "measure (\<lambda>x. case x of
         Inl e \<Rightarrow> 2 * size e
       | Inr (Inl es) \<Rightarrow> 2 * size_list size es + 1
       | Inr (Inr kvs) \<Rightarrow> 2 * size_list (size_prod size size) kvs + 1)")
     auto

text \<open>
  The function the emitted line \<^verbatim>\<open>im.point(lambda x: 0 if x<100 else 255, '1')\<close> applies
  to a pixel value, and, following the specification's words, a threshold at the
  midpoint of the range 0 to 255.
\<close>

definition number_threshold :: "nat \<Rightarrow> nat" where
  "number_threshold x = (if x < 100 then 0 else 255)"

definition midpoint_threshold :: "nat \<Rightarrow> nat" where
  "midpoint_threshold x = (if 2 * x < 255 then 0 else 255)"

text \<open>
  Two runs of the capture loop that differ at most in the first \<open>n\<close> events of their
  traces (and in nothing the loop body reads).
\<close>

definition same_after :: "nat \<Rightarrow> CreateView \<times> world \<Rightarrow> CreateView \<times> world \<Rightarrow> bool" where
  "same_after n a b \<longleftrightarrow>
     clock (snd a) = clock (snd b)
     \<and> reads (snd a) = reads (snd b) \<and> n \<le> length (trace (snd a))
     \<and> length (trace (snd a)) = length (trace (snd b))
     \<and> drop n (trace (snd a)) = drop n (trace (snd b))"

section \<open>Printing and parsing integers\<close>


lemma digit_char_is_digit: "d < 10 \<Longrightarrow> is_digit (digit_char d)"
  unfolding is_digit_def digit_char_def
  by (simp add: nth_Cons' )

lemma digit_val_digit_char: "d < 10 \<Longrightarrow> digit_val (digit_char d) = d"
proof -
  assume "d < 10"
  then have "d = 0 \<or> d = 1 \<or> d = 2 \<or> d = 3 \<or> d = 4 \<or> d = 5 \<or> d = 6 \<or> d = 7
    \<or> d = 8 \<or> d = 9" by arith
  then show ?thesis
    by (elim disjE) (simp_all add: digit_val_def digit_char_def)
qed

lemma digit_char_zero: "d < 10 \<Longrightarrow> digit_char d = CHR ''0'' \<Longrightarrow> d = 0"
proof -
  assume "d < 10" and z: "digit_char d = CHR ''0''"
  then have "d = 0 \<or> d = 1 \<or> d = 2 \<or> d = 3 \<or> d = 4 \<or> d = 5 \<or> d = 6 \<or> d = 7
    \<or> d = 8 \<or> d = 9" by arith
  then show ?thesis using z
    by (elim disjE) (simp_all add: digit_char_def)
qed

lemma str_nat_digits: "list_all is_digit (str_nat n)"
proof (induction n rule: str_nat.induct)
  case (1 n)
  show ?case
  proof (cases "n < 10")
    case True
    then show ?thesis by (simp add: str_nat.simps [of n] digit_char_is_digit)
  next
    case False
    with 1 show ?thesis by (simp add: str_nat.simps [of n] digit_char_is_digit)
  qed
qed

lemma str_nat_nonempty: "str_nat n \<noteq> []"
  by (simp add: str_nat.simps [of n])

lemma nat_of_digits_snoc: "nat_of_digits (ds @ [c]) = 10 * nat_of_digits ds + digit_val c"
  by (simp add: nat_of_digits_def)

lemma nat_of_digits_str_nat: "nat_of_digits (str_nat n) = n"
proof (induction n rule: str_nat.induct)
  case (1 n)
  show ?case
  proof (cases "n < 10")
    case True
    then show ?thesis by (simp add: str_nat.simps [of n] nat_of_digits_def digit_val_digit_char)
  next
    case False
    with 1 show ?thesis
      by (simp add: str_nat.simps [of n] nat_of_digits_snoc digit_val_digit_char)
  qed
qed

lemma str_nat_hd: "hd (str_nat n) = CHR ''0'' \<Longrightarrow> n = 0"
proof (induction n rule: str_nat.induct)
  case (1 n)
  show ?case
  proof (cases "n < 10")
    case True
    with 1(2) show ?thesis by (simp add: str_nat.simps [of n] digit_char_zero)
  next
    case False
    with 1(2) have "hd (str_nat (n div 10)) = CHR ''0''"
      by (simp add: str_nat.simps [of n] str_nat_nonempty)
    with 1(1) False have "n div 10 = 0" by simp
    with False show ?thesis by simp
  qed
qed

lemma str_nat_zero: "str_nat 0 = ''0''"
  by (simp add: str_nat.simps [of 0] digit_char_def)

lemma str_nat_no_leading_zero: "\<not> (1 < length (str_nat n) \<and> hd (str_nat n) = CHR ''0'')"
  using str_nat_hd [of n] str_nat_zero by auto


lemma takeWhile_digits:
  "list_all is_digit ds \<Longrightarrow> r = [] \<or> \<not> is_digit (hd r) \<Longrightarrow>
     takeWhile is_digit (ds @ r) = ds \<and> dropWhile is_digit (ds @ r) = r"
proof (induction ds)
  case Nil
  then show ?case by (cases r) auto
next
  case (Cons d ds)
  then show ?case by simp
qed


lemma is_sep_simps:
  "is_sep c \<Longrightarrow> \<not> is_digit c \<and> \<not> is_ident_char c \<and> c \<noteq> CHR ''.'' \<and> \<not> is_space c"
  by (auto simp: is_sep_def is_digit_def is_ident_char_def is_ident_start_def is_space_def)

lemma parse_number_str_nat:
  assumes "is_sep c"
  shows "parse_number (str_nat n @ c # r) = Some (ENum n, c # r)"
proof -
  have tw: "takeWhile is_digit (str_nat n @ c # r) = str_nat n"
    and dw: "dropWhile is_digit (str_nat n @ c # r) = c # r"
    using takeWhile_digits [OF str_nat_digits, of "c # r" n] is_sep_simps [OF assms] by simp_all
  show ?thesis
    using is_sep_simps [OF assms] str_nat_no_leading_zero [of n]
    by (simp add: parse_number_def Let_def tw dw nat_of_digits_str_nat)
qed

lemma is_digit_simps:
  "is_digit d \<Longrightarrow> d \<noteq> CHR ''['' \<and> d \<noteq> CHR ''{'' \<and> d \<noteq> CHR ''-'' \<and> d \<noteq> CHR 0x27 \<and> d \<noteq> CHR 0x22
     \<and> d \<noteq> CHR '']'' \<and> d \<noteq> CHR '')'' \<and> d \<noteq> CHR ''}'' \<and> \<not> is_space d"
  by (auto simp: is_digit_def is_space_def)

lemma parse_expr_digit: "is_digit d \<Longrightarrow> parse_expr (Suc n) (d # cs) = parse_number (d # cs)"
  using is_digit_simps [of d] by simp

lemma str_nat_Cons: "\<exists>d ds. str_nat n = d # ds \<and> is_digit d"
  using str_nat_digits [of n] str_nat_nonempty [of n] by (cases "str_nat n") auto

lemma parse_expr_str_nat:
  assumes "is_sep c"
  shows "parse_expr (Suc n) (str_nat m @ c # r) = Some (ENum m, c # r)"
proof -
  obtain d ds where d: "str_nat m = d # ds" "is_digit d" using str_nat_Cons by blast
  have "parse_expr (Suc n) (str_nat m @ c # r) = parse_number (str_nat m @ c # r)"
    using parse_expr_digit [OF d(2)] by (simp add: d(1))
  then show ?thesis by (simp add: parse_number_str_nat [OF assms])
qed

lemma skip_ws_str_nat: "skip_ws (str_nat m @ s) = str_nat m @ s"
proof -
  obtain d ds where d: "str_nat m = d # ds" "is_digit d" using str_nat_Cons by blast
  then show ?thesis using is_digit_simps [of d] by (simp add: skip_ws_def)
qed


lemma parse_expr_str_int:
  assumes "is_sep c"
  shows "parse_expr (Suc (Suc n)) (str_int i @ c # r) = Some (int_expr i, c # r)"
proof (cases "i < 0")
  case True
  then show ?thesis
    by (simp add: str_int_def int_expr_def skip_ws_str_nat parse_expr_str_nat [OF assms])
next
  case False
  then show ?thesis
    by (simp add: str_int_def int_expr_def parse_expr_str_nat [OF assms])
qed

lemma str_int_Cons:
  "\<exists>d ds. str_int i = d # ds \<and> \<not> is_space d \<and> d \<noteq> CHR '']''"
proof -
  obtain d ds where d: "str_nat (nat (- i)) = d # ds" "is_digit d" using str_nat_Cons by blast
  obtain e es where e: "str_nat (nat i) = e # es" "is_digit e" using str_nat_Cons by blast
  show ?thesis using d e is_digit_simps [of e]
    by (auto simp: str_int_def is_space_def)
qed

lemma skip_ws_space: "skip_ws (CHR '' '' # s) = skip_ws s"
  by (simp add: skip_ws_def is_space_def)

lemma skip_ws_nonspace: "\<not> is_space c \<Longrightarrow> skip_ws (c # s) = c # s"
  by (simp add: skip_ws_def)

lemma parse_items_ints:
  "xs \<noteq> [] \<Longrightarrow> length xs + 2 \<le> n \<Longrightarrow>
     parse_items n (CHR '']'') (join_comma (map str_int xs) @ CHR '']'' # r)
       = Some (map int_expr xs, r)"
proof (induction xs arbitrary: n)
  case Nil
  then show ?case by simp
next
  case (Cons x xs)
  define m where "m = n - 3"
  from Cons.prems have n: "n = Suc (Suc (Suc m))" "length xs \<le> m"
    by (simp_all add: m_def)
  obtain d ds where d: "str_int x = d # ds" "\<not> is_space d" "d \<noteq> CHR '']''"
    using str_int_Cons by blast
  show ?case
  proof (cases xs)
    case Nil
    have p: "parse_expr (Suc (Suc m)) (d # ds @ CHR '']'' # r) = Some (int_expr x, CHR '']'' # r)"
      using parse_expr_str_int [of "CHR '']''" m x r] by (simp add: d(1) is_sep_def)
    show ?thesis
      using d(2,3) by (simp add: Nil n d(1) skip_ws_nonspace p is_space_def del: parse_expr.simps(3))
  next
    case (Cons y ys)
    have p: "parse_expr (Suc (Suc m)) (d # ds @ CHR '','' # s) = Some (int_expr x, CHR '','' # s)" for s
      using parse_expr_str_int [of "CHR '',''" m x s] by (simp add: d(1) is_sep_def)
    have ih: "parse_items (Suc (Suc m)) (CHR '']'') (join_comma (map str_int xs) @ CHR '']'' # r)
       = Some (map int_expr xs, r)"
      using Cons.IH [of "Suc (Suc m)"] n Cons by simp
    show ?thesis
      using d(2,3) ih
      by (simp add: Cons n d(1) skip_ws_nonspace p is_space_def skip_ws_space del: parse_expr.simps(3))
  qed
qed

lemma parse_expr_str_list:
  "length xs + 3 \<le> n \<Longrightarrow> parse_expr n (str_list xs @ r) = Some (EList (map int_expr xs), r)"
proof -
  assume "length xs + 3 \<le> n"
  then obtain m where n: "n = Suc m" "length xs + 2 \<le> m" by (cases n) auto
  show ?thesis
  proof (cases xs)
    case Nil
    with n obtain k where "m = Suc k" by (cases m) auto
    then show ?thesis by (simp add: Nil n str_list_def skip_ws_nonspace is_space_def)
  next
    case (Cons y ys)
    then show ?thesis using parse_items_ints [of xs m r] n by (simp add: str_list_def)
  qed
qed

section \<open>Parsing the function-level payload\<close>


lemma takeWhile_plain [simp]:
  "plain s \<Longrightarrow> takeWhile (\<lambda>c. c \<noteq> CHR 0x27) (s @ CHR 0x27 # r) = s"
  by (induction s) (auto simp: plain_def str_char_ok_def)

lemma dropWhile_plain [simp]:
  "plain s \<Longrightarrow> dropWhile (\<lambda>c. c \<noteq> CHR 0x27) (s @ CHR 0x27 # r) = CHR 0x27 # r"
  by (induction s) (auto simp: plain_def str_char_ok_def)

lemma parse_string_plain:
  "plain s \<Longrightarrow> parse_string (CHR 0x27) (s @ CHR 0x27 # r) = Some (EStr s, r)"
  by (simp add: parse_string_def Let_def) (simp add: plain_def)

lemma parse_items_int_list:
  "length xs + 2 \<le> n \<Longrightarrow>
     parse_items n (CHR '']'') (join_comma (map str_int xs) @ CHR '']'' # r)
       = Some (map int_expr xs, r)"
proof (cases xs)
  case Nil
  assume "length xs + 2 \<le> n"
  then obtain m where "n = Suc m" by (cases n) auto
  then show ?thesis by (simp add: Nil skip_ws_def is_space_def)
next
  case (Cons y ys)
  assume "length xs + 2 \<le> n"
  then show ?thesis using parse_items_ints [of xs n r] Cons by simp
qed

lemma eval_int_expr: "eval_expr (int_expr i) = Inr (PInt i)"
  by (simp add: int_expr_def)

lemma eval_list_int_exprs: "eval_list (map int_expr xs) = Inr (map PInt xs)"
  by (induction xs) (simp_all add: eval_int_expr)

lemma literal_convert_int_expr: "literal_convert (int_expr i) = Inr (PInt i)"
  by (simp add: int_expr_def)

lemma literal_convert_int_exprs: "literal_convert_list (map int_expr xs) = Inr (map PInt xs)"
  by (induction xs) (simp_all add: literal_convert_int_expr)

lemma parse_expr_int_list:
  "length xs + 3 \<le> n \<Longrightarrow>
     parse_expr n (CHR ''['' # join_comma (map str_int xs) @ CHR '']'' # r)
       = Some (EList (map int_expr xs), r)"
  using parse_expr_str_list [of xs n r] by (simp add: str_list_def)

lemma parse_items_last_None:
  "2 \<le> n \<Longrightarrow>
     parse_items n (CHR '')'') (CHR '' '' # CHR ''N'' # CHR ''o'' # CHR ''n'' # CHR ''e'' # CHR '')'' # r)
       = Some ([ENone], r)"
proof -
  assume "2 \<le> n"
  then have "n = Suc (Suc (n - 2))" by simp
  then obtain m where "n = Suc (Suc m)" ..
  then show ?thesis
    by (simp add: skip_ws_def is_space_def is_ident_char_def is_ident_start_def is_digit_def)
qed

text \<open>The function-level payload of a rule with no template image.\<close>

lemma parse_function_payload:
  assumes "plain (name f)" "plain (type f)" "length (box f) + 7 \<le> n"
  shows "parse_expr n (''BoxFunction('' @ CHR 0x27 # name f @ CHR 0x27 # '', '' @ CHR 0x27 # type f
        @ CHR 0x27 # '', '' @ str_list (box f) @ '', '' @ ''None'' @ '')\<newline>'')
     = Some (ECall ''BoxFunction''
          [EStr (name f), EStr (type f), EList (map int_expr (box f)), ENone], ''\<newline>'')"
proof -
  define k where "k = n - 4"
  have n: "n = Suc (Suc (Suc (Suc k)))" and k: "length (box f) + 3 \<le> k" "2 \<le> k"
    using assms(3) by (simp_all add: k_def)
  have pl: "list_all (str_char_ok (CHR 0x27)) (name f)" "list_all (str_char_ok (CHR 0x27)) (type f)"
    using assms(1,2) by (simp_all add: plain_def)
  show ?thesis
    using assms(1,2) k pl
    by (simp add: n parse_string_def Let_def str_list_def parse_expr_int_list
        parse_items_last_None skip_ws_def
        is_space_def is_ident_char_def is_ident_start_def is_digit_def py_keywords_def)
qed


lemma length_join_comma: "length xs \<le> length (join_comma (map str_int xs))"
proof (induction xs)
  case Nil
  then show ?case by simp
next
  case (Cons x xs)
  obtain d ds where "str_int x = d # ds" using str_int_Cons by blast
  with Cons show ?case by (cases xs) simp_all
qed

lemma length_str_list: "length xs \<le> length (str_list xs)"
  using length_join_comma [of xs] by (simp add: str_list_def)

lemma kinds_plain: "k \<in> set kinds \<Longrightarrow> plain k"
  by (auto simp: kinds_def plain_def str_char_ok_def)

lemma py_eval_function_payload:
  assumes "plain (name f)" "type f \<in> set kinds" "image f = None"
  shows "py_eval (drop 4 (meta_line f)) = Inr (BoxFunction_val f)"
proof -
  let ?p = "''BoxFunction('' @ CHR 0x27 # name f @ CHR 0x27 # '', '' @ CHR 0x27 # type f
        @ CHR 0x27 # '', '' @ str_list (box f) @ '', '' @ ''None'' @ '')\<newline>''"
  have p: "drop 4 (meta_line f) = ?p"
    by (simp add: meta_line_def assms(3) str_opt_str_def)
  have fuel: "length (box f) + 7 \<le> 2 * length ?p + 2"
    using length_str_list [of "box f"] by simp
  have sk: "skip_ws ?p = ?p" by (simp add: skip_ws_def is_space_def)
  have pp: "py_parse (drop 4 (meta_line f)) = Some (ECall ''BoxFunction''
          [EStr (name f), EStr (type f), EList (map int_expr (box f)), ENone])"
    unfolding p py_parse_def sk
    using parse_function_payload [OF assms(1) kinds_plain [OF assms(2)] fuel]
    by (simp add: is_space_def)
  show ?thesis
    unfolding py_eval_def pp
    using assms(2,3)
    by (simp add: eval_list_int_exprs BoxFunction_val_def)
qed

section \<open>Parsing the class-level payload\<close>


lemma parse_expr_quote:
  "1 \<le> n \<Longrightarrow> parse_expr n (CHR 0x27 # cs) = parse_string (CHR 0x27) cs"
  by (cases n) simp_all

lemma parse_expr_None_comma:
  "1 \<le> n \<Longrightarrow> parse_expr n (CHR ''N'' # CHR ''o'' # CHR ''n'' # CHR ''e'' # CHR '','' # r)
     = Some (ENone, CHR '','' # r)"
  by (cases n)
    (simp_all add: skip_ws_def is_space_def is_ident_char_def is_ident_start_def is_digit_def)

lemma parse_pairs_directory:
  assumes "2 \<le> n" "plain dir"
  shows "parse_pairs n ('' 'directory': '' @ CHR 0x27 # dir @ CHR 0x27 # CHR ''}'' # r)
     = Some ([(EStr ''directory'', EStr dir)], r)"
proof -
  from assms(1) have "n = Suc (Suc (n - 2))" by simp
  then obtain m where n: "n = Suc (Suc m)" ..
  have pl: "list_all (str_char_ok (CHR 0x27)) dir" using assms(2) by (simp add: plain_def)
  show ?thesis
    using assms(2) pl
    by (simp add: n parse_string_def Let_def skip_ws_def is_space_def str_char_ok_def)
qed

lemmas parse_pairs_directory' = parse_pairs_directory [unfolded append.simps]

lemma parse_class_payload:
  assumes "plain dir" "(case sb of None \<Rightarrow> 0 | Some xs \<Rightarrow> length xs) + 5 \<le> n"
  shows "parse_expr n (''{'screen_box': '' @ str_opt_list sb @ '', 'directory': '' @ CHR 0x27 # dir
        @ CHR 0x27 # ''}\<newline>'')
     = Some (EDict [(EStr ''screen_box'',
                      (case sb of None \<Rightarrow> ENone | Some xs \<Rightarrow> EList (map int_expr xs))),
                    (EStr ''directory'', EStr dir)], ''\<newline>'')"
proof -
  define k where "k = n - 2"
  have n: "n = Suc (Suc k)" and k: "1 \<le> k" "2 \<le> k"
      "(case sb of None \<Rightarrow> 0 | Some xs \<Rightarrow> length xs) + 3 \<le> k"
    using assms(2) by (simp_all add: k_def)
  show ?thesis
  proof (cases sb)
    case None
    show ?thesis
      using assms(1) k
      by (simp add: None n str_opt_list_def parse_expr_quote parse_expr_None_comma
          parse_pairs_directory' parse_string_def Let_def skip_ws_def is_space_def str_char_ok_def)
  next
    case (Some xs)
    show ?thesis
      using assms(1) k
      by (simp add: Some n str_opt_list_def str_list_def parse_expr_quote parse_expr_int_list
          parse_pairs_directory' parse_string_def Let_def skip_ws_def is_space_def str_char_ok_def)
  qed
qed

lemma literal_eval_class_payload:
  assumes "plain dir"
  shows "literal_eval (drop 4 (class_line sb dir))
     = Inr (PDict [(PStr ''screen_box'', screen_box_val sb), (PStr ''directory'', PStr dir)])"
proof -
  let ?p = "''{'screen_box': '' @ str_opt_list sb @ '', 'directory': '' @ CHR 0x27 # dir
        @ CHR 0x27 # ''}\<newline>''"
  have p: "drop 4 (class_line sb dir) = ?p"
    by (simp add: class_line_def)
  have fuel: "(case sb of None \<Rightarrow> 0 | Some xs \<Rightarrow> length xs) + 5 \<le> 2 * length ?p + 2"
  proof (cases sb)
    case None
    then show ?thesis by (simp add: str_opt_list_def)
  next
    case (Some xs)
    then show ?thesis using length_str_list [of xs] by (simp add: str_opt_list_def)
  qed
  have sk: "skip_ws ?p = ?p" by (simp add: skip_ws_def is_space_def)
  have pp: "py_parse (drop 4 (class_line sb dir))
     = Some (EDict [(EStr ''screen_box'',
                      (case sb of None \<Rightarrow> ENone | Some xs \<Rightarrow> EList (map int_expr xs))),
                    (EStr ''directory'', EStr dir)])"
    unfolding p py_parse_def sk
    using parse_class_payload [OF assms fuel]
    by (simp add: is_space_def)
  show ?thesis
    unfolding literal_eval_def pp
    by (cases sb) (simp_all add: literal_convert_int_exprs screen_box_val_def hashable_def)
qed

lemma getitem_class_payload:
  "getitem_str (PDict [(PStr ''screen_box'', v), (PStr ''directory'', PStr dir)]) ''directory''
     = Inr (PStr dir)"
  by simp

section \<open>Lines of the artifact\<close>


lemma readlines_body:
  "no_nl b \<Longrightarrow> readlines (b @ CHR 0x0A # rest) = (b @ [CHR 0x0A]) # readlines rest"
  by (induction b) (auto simp: no_nl_def)

lemma readlines_line: "is_line l \<Longrightarrow> readlines (l @ rest) = l # readlines rest"
proof -
  assume l: "is_line l"
  then have "l = butlast l @ [CHR 0x0A]" by (metis is_line_def append_butlast_last_id)
  then have "readlines (l @ rest) = readlines (butlast l @ CHR 0x0A # rest)"
    by (metis append_Cons append_Nil append_assoc)
  also have "\<dots> = (butlast l @ [CHR 0x0A]) # readlines rest"
    using l by (simp add: readlines_body is_line_def)
  finally show ?thesis using \<open>l = butlast l @ [CHR 0x0A]\<close> by simp
qed

lemma readlines_concat:
  "list_all is_line ls \<Longrightarrow> readlines (concat ls @ rest) = ls @ readlines rest"
  by (induction ls) (simp_all add: readlines_line)

lemma digits_no_nl: "list_all is_digit s \<Longrightarrow> no_nl s"
  by (induction s) (auto simp: no_nl_def is_digit_def)

lemma str_int_no_nl [simp]: "no_nl (str_int i)"
  using digits_no_nl [OF str_nat_digits] by (auto simp: str_int_def no_nl_def)

lemma no_nl_append [simp]: "no_nl (a @ b) \<longleftrightarrow> no_nl a \<and> no_nl b"
  by (auto simp: no_nl_def)

lemma no_nl_Cons [simp]: "no_nl (c # s) \<longleftrightarrow> c \<noteq> CHR 0x0A \<and> c \<noteq> CHR 0x0D \<and> no_nl s"
  by (auto simp: no_nl_def)

lemma no_nl_Nil [simp]: "no_nl []"
  by (simp add: no_nl_def)

lemma join_comma_no_nl [simp]: "no_nl (join_comma (map str_int xs))"
  by (induction xs rule: induct_list012) simp_all

lemma str_list_no_nl [simp]: "no_nl (str_list xs)"
  by (simp add: str_list_def)

lemma str_opt_list_no_nl [simp]: "no_nl (str_opt_list sb)"
  by (cases sb) (simp_all add: str_opt_list_def)

lemma plain_no_nl: "plain s \<Longrightarrow> no_nl s"
  by (induction s) (auto simp: plain_def str_char_ok_def)

lemma is_line_snoc [simp]: "is_line (b @ [CHR 0x0A]) \<longleftrightarrow> no_nl b"
  by (simp add: is_line_def)

lemma is_line_append_lit: "no_nl a \<Longrightarrow> is_line b \<Longrightarrow> is_line (a @ b)"
  by (auto simp: is_line_def butlast_append)

lemma is_line_Cons: "c \<noteq> CHR 0x0A \<Longrightarrow> c \<noteq> CHR 0x0D \<Longrightarrow> is_line b \<Longrightarrow> is_line (c # b)"
  by (auto simp: is_line_def)

lemma is_line_nl [simp]: "is_line [CHR 0x0A]"
  by (simp add: is_line_def)

lemmas is_line_intros = is_line_Cons is_line_append_lit

lemma class_line_is_line: "no_nl dir \<Longrightarrow> is_line (class_line sb dir)"
  by (simp add: class_line_def is_line_def butlast_append)

lemma class_chunks_lines: "no_nl cls \<Longrightarrow> no_nl dir \<Longrightarrow> list_all is_line (class_chunks cls sb dir)"
  by (simp add: class_chunks_def class_line_is_line) (simp add: is_line_def butlast_append)

lemma grab_chunks_lines: "list_all is_line (grab_chunks sb)"
  by (simp add: grab_chunks_def is_line_def butlast_append)

lemma function_chunks_lines:
  "no_nl (name f) \<Longrightarrow> no_nl (type f) \<Longrightarrow> no_nl (str_opt_str (image f)) \<Longrightarrow>
     list_all is_line (function_chunks f)"
  by (simp add: function_chunks_def def_line_def meta_line_def crop_line_def is_line_def
      butlast_append)

lemma body_chunks_lines:
  "no_nl (str_opt_str (image f)) \<Longrightarrow> list_all is_line (body_chunks f)"
  by (simp add: body_chunks_def is_line_def butlast_append)

section \<open>The scan depends on the lines ahead only\<close>


lemma drop_shift: "drop i ls = drop j ls' \<Longrightarrow> drop (i + k) ls = drop (j + k) ls'"
proof -
  assume "drop i ls = drop j ls'"
  then have "drop k (drop i ls) = drop k (drop j ls')" by simp
  then show ?thesis by (simp add: add.commute)
qed

lemma load_loop_suffix:
  "drop i ls = drop j ls' \<Longrightarrow> load_loop ls i d fs = load_loop ls' j d fs"
proof (induction ls i d fs arbitrary: ls' j rule: load_loop.induct)
  case (1 lines i dir fs)
  have len: "length lines - i = length ls' - j"
    using arg_cong [OF "1.prems", of length] by simp
  show ?case
  proof (cases "i < length lines")
    case False
    with len have "\<not> j < length ls'" by simp
    with False show ?thesis
      by (simp add: load_loop.simps [of lines i] load_loop.simps [of ls' j])
  next
    case True
    with len have j: "j < length ls'" by simp
    have nth: "lines ! i = ls' ! j"
      using True j "1.prems" by (metis hd_drop_conv_nth)
    note dr = drop_shift [OF "1.prems"]
    show ?thesis
    proof (cases "length (lines ! i) < 4")
      case short: True
      have "load_loop lines (i + 1) dir fs = load_loop ls' (j + 1) dir fs"
        using True short dr by (rule "1.IH"(1))
      with True j short nth show ?thesis
        by (simp add: load_loop.simps [of lines i] load_loop.simps [of ls' j])
    next
      case long: False
      show ?thesis
      proof (cases "take 3 (lines ! i) = ''# c''")
        case c: True
        show ?thesis
        proof (cases "literal_eval (drop 4 (lines ! i))")
          case (Inl x)
          with True j long c nth show ?thesis
            by (simp add: load_loop.simps [of lines i] load_loop.simps [of ls' j])
        next
          case (Inr cd)
          show ?thesis
          proof (cases "getitem_str cd ''directory''")
            case gl: (Inl x)
            with Inr True j long c nth show ?thesis
              by (simp add: load_loop.simps [of lines i] load_loop.simps [of ls' j])
          next
            case gr: (Inr v)
            have "drop (i + 8 + 1) lines = drop (j + 8 + 1) ls'"
              using dr [of "8 + 1"] by (simp only: add.assoc)
            with True long c Inr gr
            have "load_loop lines (i + 8 + 1) v fs = load_loop ls' (j + 8 + 1) v fs"
              by (rule "1.IH"(2))
            with gr Inr True j long c nth show ?thesis
              by (simp add: load_loop.simps [of lines i] load_loop.simps [of ls' j])
          qed
        qed
      next
        case nc: False
        show ?thesis
        proof (cases "take 3 (lines ! i) = ''# f''")
          case f: True
          show ?thesis
          proof (cases "py_eval (drop 4 (lines ! i))")
            case (Inl x)
            with True j long nc f nth show ?thesis
              by (simp add: load_loop.simps [of lines i] load_loop.simps [of ls' j])
          next
            case (Inr v)
            have "drop (i + 2 + 1) lines = drop (j + 2 + 1) ls'"
              using dr [of "2 + 1"] by (simp only: add.assoc)
            with True long nc f Inr
            have "load_loop lines (i + 2 + 1) dir (fs @ [v]) = load_loop ls' (j + 2 + 1) dir (fs @ [v])"
              by (rule "1.IH"(3))
            with Inr True j long nc f nth show ?thesis
              by (simp add: load_loop.simps [of lines i] load_loop.simps [of ls' j])
          qed
        next
          case nf: False
          have "load_loop lines (i + 1) dir fs = load_loop ls' (j + 1) dir fs"
            using True long nc nf dr by (rule "1.IH"(4))
          with True j long nc nf nth show ?thesis
            by (simp add: load_loop.simps [of lines i] load_loop.simps [of ls' j])
        qed
      qed
    qed
  qed
qed

lemma load_loop_drop: "load_loop ls i d fs = load_loop (drop i ls) 0 d fs"
  by (rule load_loop_suffix) simp

lemma load_loop_Nil: "load_loop [] 0 d fs = Inr (d, fs)"
  by (simp add: load_loop.simps [of "[]"])

lemma load_loop_untagged:
  assumes "untagged l"
  shows "load_loop (l # ls) 0 d fs = load_loop ls 0 d fs"
proof -
  have "load_loop (l # ls) (0 + 1) d fs = load_loop ls 0 d fs"
    by (rule load_loop_suffix) simp
  then show ?thesis
    using assms by (subst load_loop.simps) (auto simp: untagged_def)
qed

lemma load_loop_function:
  assumes "4 \<le> length l" "take 3 l = ''# f''" "py_eval (drop 4 l) = Inr v"
  shows "load_loop (l # ls) 0 d fs = load_loop (drop 2 ls) 0 d (fs @ [v])"
proof -
  have "load_loop (l # ls) (0 + 2 + 1) d (fs @ [v]) = load_loop (drop 2 ls) 0 d (fs @ [v])"
    by (rule load_loop_suffix) (simp add: eval_nat_numeral)
  then show ?thesis
    using assms by (subst load_loop.simps) simp
qed

lemma load_loop_class:
  assumes "4 \<le> length l" "take 3 l = ''# c''" "literal_eval (drop 4 l) = Inr cd"
    "getitem_str cd ''directory'' = Inr v"
  shows "load_loop (l # ls) 0 d fs = load_loop (drop 8 ls) 0 v fs"
proof -
  have "load_loop (l # ls) (0 + 8 + 1) v fs = load_loop (drop 8 ls) 0 v fs"
    by (rule load_loop_suffix) (simp add: eval_nat_numeral)
  then show ?thesis
    using assms by (subst load_loop.simps) simp
qed

lemma load_loop_all_untagged:
  "list_all untagged ls \<Longrightarrow> load_loop ls 0 d fs = Inr (d, fs)"
  by (induction ls) (simp_all add: load_loop_Nil load_loop_untagged)

lemma load_library_drop: "load_library text = load_loop (drop 3 (readlines text)) 0 PNone []"
  unfolding load_library_def by (rule load_loop_drop)

section \<open>The text the encoder writes\<close>


lemma write_functions_ok:
  "\<forall>f\<in>set fs. 4 \<le> length (box f) \<Longrightarrow> write_functions fs = (concat (map function_chunks fs), None)"
  by (induction fs) simp_all

lemma create_library_ok:
  assumes "fs \<noteq> []" "\<forall>f\<in>set fs. 4 \<le> length (box f)"
  shows "create_library cls sb dir fs
     = (concat (header_chunks cls sb dir @ concat (map function_chunks fs)
          @ body_chunks (last fs) @ [''\<newline>'']), None)"
  using assms(1) by (simp add: create_library_def write_functions_ok [OF assms(2)] split: list.splits)

lemma readlines_imports:
  "readlines (concat imports_chunks @ rest) = butlast imports_chunks @ [''\<newline>'', ''\<newline>''] @ readlines rest"
  by (simp add: imports_chunks_def)

lemma readlines_Nil_lines: "list_all is_line ls \<Longrightarrow> readlines (concat ls) = ls"
  using readlines_concat [of ls "[]"] by simp

lemma function_chunks_all_lines:
  "\<forall>f\<in>set fs. no_nl (name f) \<and> no_nl (type f) \<and> no_nl (str_opt_str (image f)) \<Longrightarrow>
     list_all is_line (concat (map function_chunks fs))"
  by (induction fs) (simp_all add: function_chunks_lines)

lemma readlines_artifact:
  assumes "fs \<noteq> []" "\<forall>f\<in>set fs. 4 \<le> length (box f)"
    "no_nl cls" "no_nl dir"
    "\<forall>f\<in>set fs. no_nl (name f) \<and> no_nl (type f) \<and> no_nl (str_opt_str (image f))"
  shows "readlines (fst (create_library cls sb dir fs)) = artifact_lines cls sb dir fs"
proof -
  have last: "no_nl (str_opt_str (image (last fs)))" using assms(1,5) by simp
  have "list_all is_line (class_chunks cls sb dir @ grab_chunks sb
      @ concat (map function_chunks fs) @ body_chunks (last fs) @ [''\<newline>''])"
    using class_chunks_lines [OF assms(3,4)] grab_chunks_lines function_chunks_all_lines [OF assms(5)]
      body_chunks_lines [OF last] by simp
  then have "readlines (concat (class_chunks cls sb dir @ grab_chunks sb
      @ concat (map function_chunks fs) @ body_chunks (last fs) @ [''\<newline>'']))
    = class_chunks cls sb dir @ grab_chunks sb
      @ concat (map function_chunks fs) @ body_chunks (last fs) @ [''\<newline>'']"
    by (rule readlines_Nil_lines)
  then show ?thesis
    using readlines_imports [of "concat (class_chunks cls sb dir @ grab_chunks sb
      @ concat (map function_chunks fs) @ body_chunks (last fs) @ [''\<newline>''])"]
    by (simp add: create_library_ok [OF assms(1,2)] header_chunks_def artifact_lines_def)
qed

section \<open>Scanning an encoded artifact\<close>


lemma class_line_tag: "4 \<le> length (class_line sb dir) \<and> take 3 (class_line sb dir) = ''# c''"
  by (simp add: class_line_def)

lemma meta_line_tag: "4 \<le> length (meta_line f) \<and> take 3 (meta_line f) = ''# f''"
  by (simp add: meta_line_def)

lemma def_line_untagged: "untagged (def_line f)"
  by (simp add: def_line_def untagged_def)

lemma crop_line_untagged: "untagged (crop_line f)"
  by (simp add: crop_line_def untagged_def)

lemma load_loop_class_line:
  "plain dir \<Longrightarrow> load_loop (class_line sb dir # ls) 0 d fs = load_loop (drop 8 ls) 0 (PStr dir) fs"
  using class_line_tag [of sb dir]
  by (intro load_loop_class [where cd = "PDict [(PStr ''screen_box'', screen_box_val sb),
        (PStr ''directory'', PStr dir)]"])
    (simp_all add: literal_eval_class_payload)

lemma load_loop_meta_line:
  "reads_back f \<Longrightarrow>
     load_loop (meta_line f # ls) 0 d fs = load_loop (drop 2 ls) 0 d (fs @ [BoxFunction_val f])"
  using meta_line_tag [of f]
  by (intro load_loop_function) (simp_all add: py_eval_function_payload reads_back_def)

lemma load_loop_untagged_prefix:
  "list_all untagged pre \<Longrightarrow> load_loop (pre @ rest) 0 d fs = load_loop rest 0 d fs"
  by (induction pre) (simp_all add: load_loop_untagged)

lemma grab_chunks_untagged: "list_all untagged (grab_chunks sb)"
  by (simp add: grab_chunks_def untagged_def)

lemma body_chunks_untagged: "list_all untagged (body_chunks f)"
  by (simp add: body_chunks_def untagged_def)

lemma scan_header:
  assumes "plain dir"
  shows "load_loop (drop 3 (butlast imports_chunks @ [''\<newline>'', ''\<newline>''] @ class_chunks cls sb dir
            @ grab_chunks sb @ rest)) 0 PNone []
     = load_loop rest 0 (PStr dir) []"
proof -
  have "load_loop (drop 3 (butlast imports_chunks @ [''\<newline>'', ''\<newline>''] @ class_chunks cls sb dir
            @ grab_chunks sb @ rest)) 0 PNone []
     = load_loop (grab_chunks sb @ rest) 0 (PStr dir) []"
    by (simp add: imports_chunks_def class_chunks_def load_loop_untagged untagged_def
        load_loop_class_line [OF assms])
  then show ?thesis
    by (simp add: load_loop_untagged_prefix [OF grab_chunks_untagged])
qed

lemma scan_rules:
  assumes "\<forall>g\<in>set (f # fs). reads_back g" "list_all untagged rest"
  shows "load_loop (meta_line f # crop_line f # concat (map function_chunks fs) @ rest) 0 d acc
     = Inr (d, acc @ map BoxFunction_val (f # fs))"
  using assms
proof (induction fs arbitrary: f acc)
  case Nil
  have "list_all untagged (drop 1 rest)"
    using Nil.prems(2) by (cases rest) simp_all
  then show ?case
    using Nil.prems(1) by (simp add: load_loop_meta_line load_loop_all_untagged)
next
  case (Cons g gs)
  have "load_loop (meta_line g # crop_line g # concat (map function_chunks gs) @ rest) 0 d
          (acc @ [BoxFunction_val f])
     = Inr (d, (acc @ [BoxFunction_val f]) @ map BoxFunction_val (g # gs))"
    using Cons.prems by (intro Cons.IH) simp_all
  moreover have "load_loop (meta_line f # crop_line f # concat (map function_chunks (g # gs)) @ rest) 0 d acc
     = load_loop (meta_line g # crop_line g # concat (map function_chunks gs) @ rest) 0 d
          (acc @ [BoxFunction_val f])"
    using Cons.prems(1) by (subst load_loop_meta_line) (simp_all add: function_chunks_def)
  ultimately show ?case by simp
qed

lemma scan_artifact:
  assumes "fs \<noteq> []" "plain dir" "\<forall>f\<in>set fs. reads_back f"
  shows "load_loop (drop 3 (artifact_lines cls sb dir fs)) 0 PNone [] = Inr (PStr dir, map BoxFunction_val fs)"
proof -
  obtain f fs' where fs: "fs = f # fs'" using assms(1) by (cases fs) auto
  have rest: "list_all untagged (body_chunks (last fs) @ [''\<newline>''])"
    using body_chunks_untagged by (simp add: untagged_def)
  have "load_loop (drop 3 (artifact_lines cls sb dir fs)) 0 PNone []
     = load_loop (concat (map function_chunks fs) @ body_chunks (last fs) @ [''\<newline>'']) 0 (PStr dir) []"
    unfolding artifact_lines_def using scan_header [OF assms(2)] by simp
  also have "\<dots> = load_loop (meta_line f # crop_line f # concat (map function_chunks fs')
                 @ body_chunks (last fs) @ [''\<newline>'']) 0 (PStr dir) []"
    by (simp add: fs function_chunks_def load_loop_untagged def_line_untagged del: last.simps)
  also have "\<dots> = Inr (PStr dir, [] @ map BoxFunction_val (f # fs'))"
    using assms(3) rest unfolding fs by (intro scan_rules) simp_all
  finally show ?thesis by (simp add: fs)
qed

lemma roundtrip_pair:
  assumes "fs \<noteq> []" "\<forall>f\<in>set fs. 4 \<le> length (box f)" "no_nl cls" "plain dir"
    "\<forall>f\<in>set fs. reads_back f"
  shows "load_library (fst (create_library cls sb dir fs)) = Inr (PStr dir, map BoxFunction_val fs)"
proof -
  have nl: "\<forall>f\<in>set fs. no_nl (name f) \<and> no_nl (type f) \<and> no_nl (str_opt_str (image f))"
    using assms(5) by (auto simp: reads_back_def str_opt_str_def plain_no_nl kinds_plain)
  show ?thesis
    unfolding load_library_drop
      readlines_artifact [OF assms(1,2,3) plain_no_nl [OF assms(4)] nl]
    by (rule scan_artifact [OF assms(1,4,5)])
qed

section \<open>The claims\<close>

lemma write_functions_exn: "snd (write_functions fs) = None \<or> snd (write_functions fs) = Some IndexError"
  by (induction fs) (auto split: prod.splits)

text \<open>
  Claim C9. Encoding a library whose rule sequence is empty does not produce a complete
  artifact: the kind dispatch reads the loop variable after the loop, so the call raises
  (\<^verbatim>\<open>UnboundLocalError\<close>, a \<^verbatim>\<open>NameError\<close>) with only the header written; and that exception
  arises exactly when there is no rule, so a non-empty rule sequence is a precondition
  of encoding.
\<close>

theorem empty_rules_unbound:
  "(snd (create_library cls sb dir fs) = Some UnboundLocalError) = (fs = [])
   \<and> create_library cls sb dir [] = (concat (header_chunks cls sb dir), Some UnboundLocalError)"
proof -
  have "create_library cls sb dir [] = (concat (header_chunks cls sb dir), Some UnboundLocalError)"
    by (simp add: create_library_def)
  moreover have "snd (create_library cls sb dir fs) \<noteq> Some UnboundLocalError" if "fs \<noteq> []"
    using that write_functions_exn [of fs]
    by (cases "write_functions fs"; cases fs) (auto simp: create_library_def)
  ultimately show ?thesis by (cases fs) auto
qed

text \<open>
  Claim C5, as amended. Constructing a \<^verbatim>\<open>Library\<close> never fails: the constructor stores the
  four arguments as given and checks nothing, so a rule sequence with two rules of the
  same name is stored like any other.
\<close>

theorem library_init_total:
  "Library_init dest sb dir fs
     = Inr \<lparr>destination = dest, screen_box = sb, directory = dir, lib_functions = fs\<rparr>"
  by (simp add: Library_init_def)

text \<open>
  Claim C5 as stated fails: a library with two rules named \<^verbatim>\<open>price\<close> is constructed, and
  no \<^verbatim>\<open>DuplicateName\<close> error exists.
\<close>

theorem duplicate_names_accepted:
  "\<exists>lib. Library_init ''lib'' None ''./out''
        [\<lparr>name = ''price'', type = ''number'', box = [0, 0, 50, 20], image = None\<rparr>,
         \<lparr>name = ''price'', type = ''string'', box = [0, 30, 50, 20], image = None\<rparr>] = Inr lib
     \<and> \<not> distinct (map name (lib_functions lib))"
  by (simp add: Library_init_def)

lemma literal_convert_errors:
  shows "literal_convert e = Inl x \<Longrightarrow> x = ValueError \<or> x = TypeError"
    and "literal_convert_list es = Inl x \<Longrightarrow> x = ValueError \<or> x = TypeError"
    and "literal_convert_pairs kvs = Inl x \<Longrightarrow> x = ValueError \<or> x = TypeError"
  by (induction e and es and kvs rule: literal_convert_literal_convert_list_literal_convert_pairs.induct)
    (auto split: sum.splits pyexpr.splits if_splits)

lemma literal_convert_not_literal:
  shows "\<not> is_literal e \<Longrightarrow> \<exists>x. literal_convert e = Inl x"
    and "\<not> is_literal_list es \<Longrightarrow> \<exists>x. literal_convert_list es = Inl x"
    and "\<not> is_literal_pairs kvs \<Longrightarrow> \<exists>x. literal_convert_pairs kvs = Inl x"
  by (induction e and es and kvs rule: literal_convert_literal_convert_list_literal_convert_pairs.induct)
    (fastforce split: sum.splits pyexpr.splits if_splits)+

lemma literal_eval_not_literal:
  assumes "py_parse s = Some e" "\<not> is_literal e"
  shows "literal_eval s = Inl ValueError \<or> literal_eval s = Inl TypeError"
proof -
  obtain x where "literal_convert e = Inl x"
    using assms(2) literal_convert_not_literal(1) by blast
  then show ?thesis
    using literal_convert_errors(1) [of e x] assms(1) by (auto simp: literal_eval_def)
qed

lemma load_loop_untagged_lines:
  assumes "length ls' = length ls"
    "\<forall>j<length ls. ls' ! j = ls ! j \<or> (untagged (ls' ! j) \<and> untagged (ls ! j))"
  shows "load_loop ls' i d acc = load_loop ls i d acc"
  using assms
proof (induction ls i d acc rule: load_loop.induct)
  case (1 lines i dir fs)
  show ?case
  proof (cases "i < length lines")
    case False
    with "1.prems"(1) show ?thesis
      by (simp add: load_loop.simps [of lines i] load_loop.simps [of ls' i])
  next
    case True
    show ?thesis
    proof (cases "untagged (lines ! i)")
      case u: True
      then have u': "untagged (ls' ! i)" using "1.prems"(2) True by auto
      have "load_loop ls' (i + 1) dir fs = load_loop lines (i + 1) dir fs"
        using u True "1.prems" "1.IH"(1) "1.IH"(4) by (auto simp: untagged_def)
      then show ?thesis
        using u u' True "1.prems"(1)
        by (auto simp: untagged_def load_loop.simps [of lines i] load_loop.simps [of ls' i])
    next
      case t: False
      then have eq: "ls' ! i = lines ! i" using "1.prems"(2) True by auto
      have long: "\<not> length (lines ! i) < 4" using t by (simp add: untagged_def)
      show ?thesis
      proof (cases "take 3 (lines ! i) = ''# c''")
        case c: True
        have "load_loop ls' (i + 8 + 1) v fs = load_loop lines (i + 8 + 1) v fs"
          if "literal_eval (drop 4 (lines ! i)) = Inr cd" "getitem_str cd ''directory'' = Inr v"
          for cd v
          using True long c that "1.prems" by (rule "1.IH"(2))
        then show ?thesis
          using True long c eq "1.prems"(1)
          by (simp add: load_loop.simps [of lines i] load_loop.simps [of ls' i] split: sum.splits)
      next
        case nc: False
        then have f: "take 3 (lines ! i) = ''# f''" using t by (simp add: untagged_def)
        have "load_loop ls' (i + 2 + 1) dir (fs @ [v]) = load_loop lines (i + 2 + 1) dir (fs @ [v])"
          if "py_eval (drop 4 (lines ! i)) = Inr v" for v
          using True long nc f that "1.prems" by (rule "1.IH"(3))
        then show ?thesis
          using True long nc f eq "1.prems"(1)
          by (simp add: load_loop.simps [of lines i] load_loop.simps [of ls' i] split: sum.splits)
      qed
    qed
  qed
qed

lemma drop_agree:
  "length ls' = length ls \<Longrightarrow> (\<forall>j. i \<le> j \<longrightarrow> ls' ! j = ls ! j) \<Longrightarrow> drop i ls' = drop i ls"
  by (rule nth_equalityI) auto

lemma load_loop_class_resume:
  assumes "i < length ls" "4 \<le> length (ls ! i)" "take 3 (ls ! i) = ''# c''"
    "literal_eval (drop 4 (ls ! i)) = Inr cd" "getitem_str cd ''directory'' = Inr v"
  shows "load_loop ls i d acc = load_loop (drop (i + 9) ls) 0 v acc"
proof -
  have "load_loop ls (i + 9) v acc = load_loop (drop (i + 9) ls) 0 v acc"
    by (rule load_loop_suffix) simp
  then have "load_loop ls (i + 8 + 1) v acc = load_loop (drop (i + 9) ls) 0 v acc"
    by (simp only: add.assoc) simp
  then show ?thesis using assms by (subst load_loop.simps) simp
qed

lemma load_loop_function_resume:
  assumes "i < length ls" "4 \<le> length (ls ! i)" "take 3 (ls ! i) = ''# f''"
    "py_eval (drop 4 (ls ! i)) = Inr f"
  shows "load_loop ls i d acc = load_loop (drop (i + 3) ls) 0 d (acc @ [f])"
proof -
  have "load_loop ls (i + 3) d (acc @ [f]) = load_loop (drop (i + 3) ls) 0 d (acc @ [f])"
    by (rule load_loop_suffix) simp
  then have "load_loop ls (i + 2 + 1) d (acc @ [f]) = load_loop (drop (i + 3) ls) 0 d (acc @ [f])"
    by (simp only: add.assoc) simp
  then show ?thesis using assms by (subst load_loop.simps) simp
qed

lemma load_loop_class_window:
  assumes "i < length ls" "4 \<le> length (ls ! i)" "take 3 (ls ! i) = ''# c''"
    "length ls' = length ls" "ls' ! i = ls ! i" "\<forall>j. i + 9 \<le> j \<longrightarrow> ls' ! j = ls ! j"
  shows "load_loop ls' i d acc = load_loop ls i d acc"
proof -
  have "drop (i + 9) ls' = drop (i + 9) ls"
    using assms(4,6) by (rule drop_agree)
  then have "load_loop ls' (i + 9) v acc = load_loop ls (i + 9) v acc" for v
    by (rule load_loop_suffix)
  then have "load_loop ls' (i + 8 + 1) v acc = load_loop ls (i + 8 + 1) v acc" for v
    by (simp only: add.assoc) simp
  then show ?thesis
    using assms(1-5)
    by (simp add: load_loop.simps [of ls i] load_loop.simps [of ls' i] split: sum.splits)
qed

text \<open>
  Claim C10. Decoding scans from the fourth line on: the result is the scan of the lines
  from index 3. After a class-level line at index \<open>i\<close> whose payload was read, the scan
  resumes at \<open>i + 9\<close>; after a function-level line, at \<open>i + 3\<close>. So what stands in the
  first three lines, or in the eight lines after a class-level line, has no effect on
  the result, metadata line or not.
\<close>

theorem scan_positions:
  "load_library t = load_loop (drop 3 (readlines t)) 0 PNone []
   \<and> (i < length ls \<and> 4 \<le> length (ls ! i) \<and> take 3 (ls ! i) = ''# c''
        \<and> literal_eval (drop 4 (ls ! i)) = Inr cd \<and> getitem_str cd ''directory'' = Inr v
      \<longrightarrow> load_loop ls i d acc = load_loop (drop (i + 9) ls) 0 v acc)
   \<and> (i < length ls \<and> 4 \<le> length (ls ! i) \<and> take 3 (ls ! i) = ''# f''
        \<and> py_eval (drop 4 (ls ! i)) = Inr f
      \<longrightarrow> load_loop ls i d acc = load_loop (drop (i + 3) ls) 0 d (acc @ [f]))
   \<and> (length ls' = length ls \<and> (\<forall>j. 3 \<le> j \<longrightarrow> ls' ! j = ls ! j)
      \<longrightarrow> load_loop ls' 3 PNone [] = load_loop ls 3 PNone [])
   \<and> (i < length ls \<and> 4 \<le> length (ls ! i) \<and> take 3 (ls ! i) = ''# c''
        \<and> length ls' = length ls \<and> ls' ! i = ls ! i \<and> (\<forall>j. i + 9 \<le> j \<longrightarrow> ls' ! j = ls ! j)
      \<longrightarrow> load_loop ls' i d acc = load_loop ls i d acc)"
proof (intro conjI impI)
  show "load_library t = load_loop (drop 3 (readlines t)) 0 PNone []"
    by (rule load_library_drop)
next
  assume "i < length ls \<and> 4 \<le> length (ls ! i) \<and> take 3 (ls ! i) = ''# c''
        \<and> literal_eval (drop 4 (ls ! i)) = Inr cd \<and> getitem_str cd ''directory'' = Inr v"
  then show "load_loop ls i d acc = load_loop (drop (i + 9) ls) 0 v acc"
    by (elim conjE) (erule (4) load_loop_class_resume)
next
  assume "i < length ls \<and> 4 \<le> length (ls ! i) \<and> take 3 (ls ! i) = ''# f''
        \<and> py_eval (drop 4 (ls ! i)) = Inr f"
  then show "load_loop ls i d acc = load_loop (drop (i + 3) ls) 0 d (acc @ [f])"
    by (elim conjE) (erule (3) load_loop_function_resume)
next
  assume "length ls' = length ls \<and> (\<forall>j. 3 \<le> j \<longrightarrow> ls' ! j = ls ! j)"
  then have "drop 3 ls' = drop 3 ls" by (intro drop_agree) simp_all
  then show "load_loop ls' 3 PNone [] = load_loop ls 3 PNone []"
    by (rule load_loop_suffix)
next
  assume "i < length ls \<and> 4 \<le> length (ls ! i) \<and> take 3 (ls ! i) = ''# c''
        \<and> length ls' = length ls \<and> ls' ! i = ls ! i \<and> (\<forall>j. i + 9 \<le> j \<longrightarrow> ls' ! j = ls ! j)"
  then show "load_loop ls' i d acc = load_loop ls i d acc"
    by (elim conjE) (erule (5) load_loop_class_window)
qed

text \<open>
  An artifact with a metadata line in its first line and in each of the eight lines after
  the class-level line: none of them is decoded, the rule on line 12 is.
\<close>

theorem scan_positions_witness:
  "load_library (concat
     [''# f BoxFunction('early', 'string', [1, 2, 3, 4], None)\<newline>'',
      ''\<newline>'',
      ''\<newline>'',
      ''# c {'directory': 'out'}\<newline>'',
      ''# f BoxFunction('h1', 'string', [1, 2, 3, 4], None)\<newline>'',
      ''# f BoxFunction('h2', 'string', [1, 2, 3, 4], None)\<newline>'',
      ''# f BoxFunction('h3', 'string', [1, 2, 3, 4], None)\<newline>'',
      ''# f BoxFunction('h4', 'string', [1, 2, 3, 4], None)\<newline>'',
      ''# f BoxFunction('h5', 'string', [1, 2, 3, 4], None)\<newline>'',
      ''# f BoxFunction('h6', 'string', [1, 2, 3, 4], None)\<newline>'',
      ''# f BoxFunction('h7', 'string', [1, 2, 3, 4], None)\<newline>'',
      ''# c {'directory': 'hidden'}\<newline>'',
      ''# f BoxFunction('seen', 'number', [5, 6, 7, 8], None)\<newline>'',
      ''# f BoxFunction('h8', 'string', [1, 2, 3, 4], None)\<newline>''])
   = Inr (PStr ''out'',
          [PBoxFunction (PStr ''seen'') (PStr ''number'') (PList [PInt 5, PInt 6, PInt 7, PInt 8]) PNone])"
proof -
  let ?c = "''# c {'directory': 'out'}\<newline>''"
  let ?s = "''# f BoxFunction('seen', 'number', [5, 6, 7, 8], None)\<newline>''"
  let ?h = "''# f BoxFunction('h8', 'string', [1, 2, 3, 4], None)\<newline>''"
  let ?ls = "[''# f BoxFunction('early', 'string', [1, 2, 3, 4], None)\<newline>'', ''\<newline>'', ''\<newline>'',
       ?c,
       ''# f BoxFunction('h1', 'string', [1, 2, 3, 4], None)\<newline>'',
       ''# f BoxFunction('h2', 'string', [1, 2, 3, 4], None)\<newline>'',
       ''# f BoxFunction('h3', 'string', [1, 2, 3, 4], None)\<newline>'',
       ''# f BoxFunction('h4', 'string', [1, 2, 3, 4], None)\<newline>'',
       ''# f BoxFunction('h5', 'string', [1, 2, 3, 4], None)\<newline>'',
       ''# f BoxFunction('h6', 'string', [1, 2, 3, 4], None)\<newline>'',
       ''# f BoxFunction('h7', 'string', [1, 2, 3, 4], None)\<newline>'',
       ''# c {'directory': 'hidden'}\<newline>'',
       ?s, ?h]"
  have r: "readlines (concat ?ls) = ?ls"
    by (rule readlines_Nil_lines) (simp add: is_line_def)
  have c: "literal_eval ''{'directory': 'out'}\<newline>'' = Inr (PDict [(PStr ''directory'', PStr ''out'')])"
    by code_simp
  have s: "py_eval ''BoxFunction('seen', 'number', [5, 6, 7, 8], None)\<newline>''
      = Inr (PBoxFunction (PStr ''seen'') (PStr ''number'') (PList [PInt 5, PInt 6, PInt 7, PInt 8]) PNone)"
    by code_simp
  have 1: "load_library (concat ?ls) = load_loop (drop 3 (readlines (concat ?ls))) 0 PNone []"
    by (rule scan_positions [THEN conjunct1])
  let ?L = "[?c,
       ''# f BoxFunction('h1', 'string', [1, 2, 3, 4], None)\<newline>'',
       ''# f BoxFunction('h2', 'string', [1, 2, 3, 4], None)\<newline>'',
       ''# f BoxFunction('h3', 'string', [1, 2, 3, 4], None)\<newline>'',
       ''# f BoxFunction('h4', 'string', [1, 2, 3, 4], None)\<newline>'',
       ''# f BoxFunction('h5', 'string', [1, 2, 3, 4], None)\<newline>'',
       ''# f BoxFunction('h6', 'string', [1, 2, 3, 4], None)\<newline>'',
       ''# f BoxFunction('h7', 'string', [1, 2, 3, 4], None)\<newline>'',
       ''# c {'directory': 'hidden'}\<newline>'',
       ?s, ?h]"
  have 2: "load_loop ?L 0 PNone [] = load_loop (drop (0 + 9) ?L) 0 (PStr ''out'') []"
    by (rule scan_positions [THEN conjunct2, THEN conjunct1, rule_format,
          where cd = "PDict [(PStr ''directory'', PStr ''out'')]"])
      (simp add: c)
  have 3: "load_loop [?s, ?h] 0 (PStr ''out'') []
      = load_loop (drop (0 + 3) [?s, ?h]) 0 (PStr ''out'')
          ([] @ [PBoxFunction (PStr ''seen'') (PStr ''number'') (PList [PInt 5, PInt 6, PInt 7, PInt 8]) PNone])"
    by (rule scan_positions [THEN conjunct2, THEN conjunct2, THEN conjunct1, rule_format])
      (simp add: s)
  have 4: "drop (0 + 9) ?L = [?s, ?h]" "drop 3 ?ls = ?L" by simp_all
  show ?thesis
    unfolding 1 r 2 4 3 by (simp add: load_loop.simps [of "[]"])
qed

text \<open>
  Claim C2, as amended. Decoding never interprets a line without a tag: replacing such
  lines by other lines without a tag leaves the result unchanged. A class-level payload
  is handed to literal evaluation only: where it parses to anything but a literal (a
  call, a name), the decode fails and nothing is evaluated. (A function-level payload,
  however, is evaluated as an expression: the constructor call it holds is run.)
\<close>

theorem class_payload_literal_only:
  "(length ls' = length ls
      \<and> (\<forall>j<length ls. ls' ! j = ls ! j \<or> (untagged (ls' ! j) \<and> untagged (ls ! j)))
      \<longrightarrow> load_loop ls' i d acc = load_loop ls i d acc)
   \<and> (i < length ls \<and> 4 \<le> length (ls ! i) \<and> take 3 (ls ! i) = ''# c''
        \<and> py_parse (drop 4 (ls ! i)) = Some e \<and> \<not> is_literal e
      \<longrightarrow> load_loop ls i d acc = Inl ValueError \<or> load_loop ls i d acc = Inl TypeError)"
proof (intro conjI impI)
  assume "length ls' = length ls
      \<and> (\<forall>j<length ls. ls' ! j = ls ! j \<or> (untagged (ls' ! j) \<and> untagged (ls ! j)))"
  then show "load_loop ls' i d acc = load_loop ls i d acc"
    by (elim conjE) (erule (1) load_loop_untagged_lines)
next
  assume a: "i < length ls \<and> 4 \<le> length (ls ! i) \<and> take 3 (ls ! i) = ''# c''
        \<and> py_parse (drop 4 (ls ! i)) = Some e \<and> \<not> is_literal e"
  then have "literal_eval (drop 4 (ls ! i)) = Inl ValueError
      \<or> literal_eval (drop 4 (ls ! i)) = Inl TypeError"
    by (intro literal_eval_not_literal [of _ e]) simp_all
  then show "load_loop ls i d acc = Inl ValueError \<or> load_loop ls i d acc = Inl TypeError"
    using a by (subst load_loop.simps, subst (2) load_loop.simps) auto
qed

text \<open>
  The body lines of an operation may be replaced by anything without a tag; and a
  class-level line that holds a constructor call instead of a dict is refused.
\<close>

theorem class_payload_literal_only_witness:
  "load_loop [''import random\<newline>'', ''import numpy\<newline>'', ''import cv2\<newline>'',
        ''@@ no python at all @@\<newline>'',
        ''# f BoxFunction('a', 'string', [1, 2, 3, 4], None)\<newline>''] 3 PNone []
     = load_loop [''import random\<newline>'', ''import numpy\<newline>'', ''import cv2\<newline>'',
        ''        return loc\<newline>'',
        ''# f BoxFunction('a', 'string', [1, 2, 3, 4], None)\<newline>''] 3 PNone []
   \<and> (load_loop [''import random\<newline>'', ''import numpy\<newline>'', ''import cv2\<newline>'',
        ''# c BoxFunction('a', 'string', [1, 2, 3, 4], None)\<newline>''] 3 PNone [] = Inl ValueError
      \<or> load_loop [''import random\<newline>'', ''import numpy\<newline>'', ''import cv2\<newline>'',
        ''# c BoxFunction('a', 'string', [1, 2, 3, 4], None)\<newline>''] 3 PNone [] = Inl TypeError)"
proof (intro conjI)
  let ?m = "''# f BoxFunction('a', 'string', [1, 2, 3, 4], None)\<newline>''"
  let ?h = "[''import random\<newline>'', ''import numpy\<newline>'', ''import cv2\<newline>'']"
  have u: "\<forall>j<length (?h @ [''        return loc\<newline>'', ?m]).
      (?h @ [''@@ no python at all @@\<newline>'', ?m]) ! j = (?h @ [''        return loc\<newline>'', ?m]) ! j
      \<or> (untagged ((?h @ [''@@ no python at all @@\<newline>'', ?m]) ! j)
          \<and> untagged ((?h @ [''        return loc\<newline>'', ?m]) ! j))"
    by (simp add: All_less_Suc untagged_def eval_nat_numeral)
  show "load_loop [''import random\<newline>'', ''import numpy\<newline>'', ''import cv2\<newline>'',
        ''@@ no python at all @@\<newline>'', ?m] 3 PNone []
     = load_loop [''import random\<newline>'', ''import numpy\<newline>'', ''import cv2\<newline>'',
        ''        return loc\<newline>'', ?m] 3 PNone []"
    using class_payload_literal_only [THEN conjunct1, rule_format,
        of "?h @ [''@@ no python at all @@\<newline>'', ?m]" "?h @ [''        return loc\<newline>'', ?m]" 3 PNone "[]"] u
    by simp
next
  let ?c = "''# c BoxFunction('a', 'string', [1, 2, 3, 4], None)\<newline>''"
  let ?ls = "[''import random\<newline>'', ''import numpy\<newline>'', ''import cv2\<newline>'', ?c]"
  have p: "py_parse ''BoxFunction('a', 'string', [1, 2, 3, 4], None)\<newline>'' = Some (ECall ''BoxFunction''
      [EStr ''a'', EStr ''string'', EList [ENum 1, ENum 2, ENum 3, ENum 4], ENone])"
    by code_simp
  show "load_loop ?ls 3 PNone [] = Inl ValueError \<or> load_loop ?ls 3 PNone [] = Inl TypeError"
    by (rule class_payload_literal_only [THEN conjunct2, rule_format,
          where e = "ECall ''BoxFunction'' [EStr ''a'', EStr ''string'', EList [ENum 1, ENum 2, ENum 3, ENum 4], ENone]"])
      (simp add: p)
qed

text \<open>
  Claim C2 as stated fails for function-level payloads: literal evaluation refuses the
  payload of a metadata line as the encoder writes it (a constructor call is no
  literal), and decoding evaluates it all the same.
\<close>

theorem function_payload_evaluated:
  "literal_eval ''BoxFunction('score', 'number', [10, 10, 100, 40], None)\<newline>'' = Inl ValueError
   \<and> load_library (concat
        [''import random\<newline>'',
         ''import numpy\<newline>'',
         ''import cv2\<newline>'',
         ''# f BoxFunction('score', 'number', [10, 10, 100, 40], None)\<newline>''])
     = Inr (PNone, [PBoxFunction (PStr ''score'') (PStr ''number'')
          (PList [PInt 10, PInt 10, PInt 100, PInt 40]) PNone])"
proof
  show "literal_eval ''BoxFunction('score', 'number', [10, 10, 100, 40], None)\<newline>'' = Inl ValueError"
    by code_simp
next
  let ?m = "''# f BoxFunction('score', 'number', [10, 10, 100, 40], None)\<newline>''"
  let ?ls = "[''import random\<newline>'', ''import numpy\<newline>'', ''import cv2\<newline>'', ?m]"
  have r: "readlines (concat ?ls) = ?ls"
    by (rule readlines_Nil_lines) (simp add: is_line_def)
  have e: "py_eval ''BoxFunction('score', 'number', [10, 10, 100, 40], None)\<newline>''
      = Inr (PBoxFunction (PStr ''score'') (PStr ''number'')
          (PList [PInt 10, PInt 10, PInt 100, PInt 40]) PNone)"
    by code_simp
  have d: "drop 3 ?ls = [?m]" by simp
  have "load_loop [?m] 0 PNone [] = load_loop (drop 2 []) 0 PNone
      ([] @ [PBoxFunction (PStr ''score'') (PStr ''number'')
          (PList [PInt 10, PInt 10, PInt 100, PInt 40]) PNone])"
    by (rule load_loop_function) (simp_all add: e)
  then show "load_library (concat ?ls)
     = Inr (PNone, [PBoxFunction (PStr ''score'') (PStr ''number'')
          (PList [PInt 10, PInt 10, PInt 100, PInt 40]) PNone])"
    unfolding load_library_drop r d by (simp add: load_loop_Nil)
qed

text \<open>
  Claim C1, as amended. For every library with at least one rule, whose boxes have their
  four entries, whose class name holds no line break, whose directory and rule names are
  plain, whose kinds are of the closed set and whose rules have no template image,
  encoding succeeds and decoding the artifact returns the pair of the output directory
  and the rules, every field of every rule, in the original order. (The capture region
  is not part of what decoding returns.)
\<close>

theorem roundtrip:
  assumes "fs \<noteq> []" "\<forall>f\<in>set fs. 4 \<le> length (box f)" "no_nl cls" "plain dir"
    "\<forall>f\<in>set fs. reads_back f"
  shows "snd (create_library cls sb dir fs) = None
    \<and> load_library (fst (create_library cls sb dir fs)) = Inr (PStr dir, map BoxFunction_val fs)"
  using create_library_ok [OF assms(1,2)] roundtrip_pair [OF assms] by simp

text \<open>The example of the specification, with a second rule and a capture region.\<close>

theorem roundtrip_witness:
  "snd (create_library ''lib'' (Some [0, 0, 800, 600]) ''./out''
      [\<lparr>name = ''score'', type = ''number'', box = [10, 10, 100, 40], image = None\<rparr>,
       \<lparr>name = ''title'', type = ''string'', box = [-5, 60, 200, 30], image = None\<rparr>]) = None
   \<and> load_library (fst (create_library ''lib'' (Some [0, 0, 800, 600]) ''./out''
      [\<lparr>name = ''score'', type = ''number'', box = [10, 10, 100, 40], image = None\<rparr>,
       \<lparr>name = ''title'', type = ''string'', box = [-5, 60, 200, 30], image = None\<rparr>]))
     = Inr (PStr ''./out'', map BoxFunction_val
      [\<lparr>name = ''score'', type = ''number'', box = [10, 10, 100, 40], image = None\<rparr>,
       \<lparr>name = ''title'', type = ''string'', box = [-5, 60, 200, 30], image = None\<rparr>])"
  by (rule roundtrip)
    (simp_all add: reads_back_def plain_def str_char_ok_def kinds_def)

text \<open>
  Claim C1 as stated fails: decoding returns the directory and the rules only. The
  artifact of a library with the capture region \<^verbatim>\<open>[0, 0, 800, 600]\<close> and that of the same
  library with no capture region decode to the same pair, so the capture region is not
  recovered.
\<close>

theorem capture_region_not_returned:
  "load_library (fst (create_library ''lib'' (Some [0, 0, 800, 600]) ''./out''
      [\<lparr>name = ''score'', type = ''number'', box = [10, 10, 100, 40], image = None\<rparr>]))
     = Inr (PStr ''./out'', map BoxFunction_val
      [\<lparr>name = ''score'', type = ''number'', box = [10, 10, 100, 40], image = None\<rparr>])
   \<and> load_library (fst (create_library ''lib'' None ''./out''
      [\<lparr>name = ''score'', type = ''number'', box = [10, 10, 100, 40], image = None\<rparr>]))
     = Inr (PStr ''./out'', map BoxFunction_val
      [\<lparr>name = ''score'', type = ''number'', box = [10, 10, 100, 40], image = None\<rparr>])"
  by (intro conjI; rule roundtrip_pair)
    (simp_all add: reads_back_def plain_def str_char_ok_def kinds_def)

lemma header_length:
  "length (butlast imports_chunks @ [''\<newline>'', ''\<newline>''] @ class_chunks cls sb dir @ grab_chunks sb) = 27"
  by (simp add: imports_chunks_def class_chunks_def grab_chunks_def)

lemma nth_function_chunks:
  "k < length fs \<Longrightarrow>
     (concat (map function_chunks fs) @ rest) ! (3 * k) = def_line (fs ! k)
     \<and> (concat (map function_chunks fs) @ rest) ! (3 * k + 1) = meta_line (fs ! k)
     \<and> (concat (map function_chunks fs) @ rest) ! (3 * k + 2) = crop_line (fs ! k)"
proof (induction fs arbitrary: k)
  case Nil
  then show ?case by simp
next
  case (Cons f fs)
  show ?case
  proof (cases k)
    case 0
    then show ?thesis by (simp add: function_chunks_def)
  next
    case (Suc m)
    with Cons.prems have m: "m < length fs" by simp
    have "3 * k = Suc (Suc (Suc (3 * m)))" using Suc by simp
    then show ?thesis using Cons.IH [OF m] Suc by (simp add: function_chunks_def)
  qed
qed

lemma artifact_rule_lines:
  assumes "k < length fs"
  shows "artifact_lines cls sb dir fs ! (27 + 3 * k) = def_line (fs ! k)
    \<and> artifact_lines cls sb dir fs ! (28 + 3 * k) = meta_line (fs ! k)
    \<and> artifact_lines cls sb dir fs ! (29 + 3 * k) = crop_line (fs ! k)"
proof -
  let ?h = "butlast imports_chunks @ [''\<newline>'', ''\<newline>''] @ class_chunks cls sb dir @ grab_chunks sb"
  let ?r = "concat (map function_chunks fs) @ body_chunks (last fs) @ [''\<newline>'']"
  have a: "artifact_lines cls sb dir fs = ?h @ ?r"
    unfolding artifact_lines_def by (simp only: append_assoc)
  have "(?h @ ?r) ! (length ?h + j) = ?r ! j" for j
    by (rule nth_append_length_plus)
  then have n: "(?h @ ?r) ! (27 + j) = ?r ! j" for j
    unfolding header_length .
  have "28 + 3 * k = 27 + (3 * k + 1)" "29 + 3 * k = 27 + (3 * k + 2)" by simp_all
  then show ?thesis
    unfolding a using n nth_function_chunks [OF assms, of "body_chunks (last fs) @ [''\<newline>'']"]
    by (simp only:)
qed

lemma filter_function_chunks:
  "filter (\<lambda>l. take 3 l = ''# f'') (concat (map function_chunks fs)) = map meta_line fs"
  by (induction fs)
    (simp_all add: function_chunks_def def_line_def crop_line_def meta_line_tag)

lemma filter_artifact_lines:
  "filter (\<lambda>l. take 3 l = ''# f'') (artifact_lines cls sb dir fs) = map meta_line fs"
proof -
  have h: "filter (\<lambda>l. take 3 l = ''# f'')
      (butlast imports_chunks @ [''\<newline>'', ''\<newline>''] @ class_chunks cls sb dir @ grab_chunks sb) = []"
    by (simp add: imports_chunks_def class_chunks_def grab_chunks_def class_line_tag)
  have b: "filter (\<lambda>l. take 3 l = ''# f'') (body_chunks (last fs) @ [''\<newline>'']) = []"
    by (simp add: body_chunks_def)
  have a: "artifact_lines cls sb dir fs
      = (butlast imports_chunks @ [''\<newline>'', ''\<newline>''] @ class_chunks cls sb dir @ grab_chunks sb)
        @ concat (map function_chunks fs) @ (body_chunks (last fs) @ [''\<newline>''])"
    unfolding artifact_lines_def by (simp only: append_assoc)
  have "filter (\<lambda>l. take 3 l = ''# f'') (artifact_lines cls sb dir fs)
      = [] @ map meta_line fs @ []"
    unfolding a by (subst filter_append, subst filter_append) (simp only: h b filter_function_chunks)
  then show ?thesis by simp
qed

text \<open>
  Claim C8, as amended. For every library that encodes to a complete artifact whose
  inserted strings hold no line break, the encoder writes three lines per rule, in the
  order of the rules and from line 27 on: the header of the rule's operation, then the
  function-level metadata line with (name, kind, box, templateImage), then the crop
  statement. So the metadata line stands inside the operation, right after its header;
  and the artifact holds exactly one function-level metadata line per rule, in order.
\<close>

theorem rule_lines:
  assumes "fs \<noteq> []" "\<forall>f\<in>set fs. 4 \<le> length (box f)" "no_nl cls" "no_nl dir"
    "\<forall>f\<in>set fs. no_nl (name f) \<and> no_nl (type f) \<and> no_nl (str_opt_str (image f))"
    "k < length fs"
  shows "readlines (fst (create_library cls sb dir fs)) ! (27 + 3 * k) = def_line (fs ! k)
    \<and> readlines (fst (create_library cls sb dir fs)) ! (28 + 3 * k) = meta_line (fs ! k)
    \<and> readlines (fst (create_library cls sb dir fs)) ! (29 + 3 * k) = crop_line (fs ! k)
    \<and> filter (\<lambda>l. take 3 l = ''# f'') (readlines (fst (create_library cls sb dir fs)))
        = map meta_line fs"
  unfolding readlines_artifact [OF assms(1-5)]
  using artifact_rule_lines [OF assms(6)] filter_artifact_lines by simp

text \<open>The second of two rules: its three lines are lines 30, 31 and 32.\<close>

theorem rule_lines_witness:
  "readlines (fst (create_library ''lib'' None ''./out''
      [\<lparr>name = ''score'', type = ''number'', box = [10, 10, 100, 40], image = None\<rparr>,
       \<lparr>name = ''logo'', type = ''position'', box = [0, 0, 64, 64], image = Some ''logo.png''\<rparr>]))
      ! (27 + 3 * 1)
     = def_line ([\<lparr>name = ''score'', type = ''number'', box = [10, 10, 100, 40], image = None\<rparr>,
       \<lparr>name = ''logo'', type = ''position'', box = [0, 0, 64, 64], image = Some ''logo.png''\<rparr>] ! 1)
   \<and> readlines (fst (create_library ''lib'' None ''./out''
      [\<lparr>name = ''score'', type = ''number'', box = [10, 10, 100, 40], image = None\<rparr>,
       \<lparr>name = ''logo'', type = ''position'', box = [0, 0, 64, 64], image = Some ''logo.png''\<rparr>]))
      ! (28 + 3 * 1)
     = meta_line ([\<lparr>name = ''score'', type = ''number'', box = [10, 10, 100, 40], image = None\<rparr>,
       \<lparr>name = ''logo'', type = ''position'', box = [0, 0, 64, 64], image = Some ''logo.png''\<rparr>] ! 1)
   \<and> readlines (fst (create_library ''lib'' None ''./out''
      [\<lparr>name = ''score'', type = ''number'', box = [10, 10, 100, 40], image = None\<rparr>,
       \<lparr>name = ''logo'', type = ''position'', box = [0, 0, 64, 64], image = Some ''logo.png''\<rparr>]))
      ! (29 + 3 * 1)
     = crop_line ([\<lparr>name = ''score'', type = ''number'', box = [10, 10, 100, 40], image = None\<rparr>,
       \<lparr>name = ''logo'', type = ''position'', box = [0, 0, 64, 64], image = Some ''logo.png''\<rparr>] ! 1)
   \<and> filter (\<lambda>l. take 3 l = ''# f'') (readlines (fst (create_library ''lib'' None ''./out''
      [\<lparr>name = ''score'', type = ''number'', box = [10, 10, 100, 40], image = None\<rparr>,
       \<lparr>name = ''logo'', type = ''position'', box = [0, 0, 64, 64], image = Some ''logo.png''\<rparr>])))
     = map meta_line
      [\<lparr>name = ''score'', type = ''number'', box = [10, 10, 100, 40], image = None\<rparr>,
       \<lparr>name = ''logo'', type = ''position'', box = [0, 0, 64, 64], image = Some ''logo.png''\<rparr>]"
  by (rule rule_lines) (simp_all add: str_opt_str_def)

text \<open>
  Claim C8 as stated fails: the metadata line does not precede the operation. In the
  artifact of a library with the one rule \<^verbatim>\<open>score\<close>, the header of the operation is line
  27, the metadata line is line 28, and line 29 is the crop statement.
\<close>

theorem metadata_line_follows_header:
  \<open>readlines (fst (create_library ''lib'' None ''./out''
      [\<lparr>name = ''score'', type = ''number'', box = [10, 10, 100, 40], image = None\<rparr>])) ! 27
     = ''    def score(self):\<newline>''
   \<and> readlines (fst (create_library ''lib'' None ''./out''
      [\<lparr>name = ''score'', type = ''number'', box = [10, 10, 100, 40], image = None\<rparr>])) ! 28
     = ''# f BoxFunction('score', 'number', [10, 10, 100, 40], None)\<newline>''
   \<and> readlines (fst (create_library ''lib'' None ''./out''
      [\<lparr>name = ''score'', type = ''number'', box = [10, 10, 100, 40], image = None\<rparr>])) ! 29
     = ''cropped = self.img.crop([10, 10, 110, 50])\<newline>''\<close>
proof -
  let ?f = "\<lparr>name = ''score'', type = ''number'', box = [10, 10, 100, 40], image = None\<rparr>"
  have r: "readlines (fst (create_library ''lib'' None ''./out'' [?f]))
      = artifact_lines ''lib'' None ''./out'' [?f]"
    by (rule readlines_artifact) (simp_all add: str_opt_str_def)
  have d: "def_line ?f = ''    def score(self):\<newline>''"
    by code_simp
  have m: "meta_line ?f = ''# f BoxFunction('score', 'number', [10, 10, 100, 40], None)\<newline>''"
    by code_simp
  have c: "crop_line ?f = ''cropped = self.img.crop([10, 10, 110, 50])\<newline>''"
    by code_simp
  show ?thesis
    unfolding r using artifact_rule_lines [of 0 "[?f]" "''lib''" None "''./out''"]
    by (simp add: d m c)
qed

text \<open>
  Claim C4, as amended. When the last rule is of kind number (and the library encodes
  without an exception), the encoder ends the artifact with an extraction body that
  applies, in this order: edge enhancement, 3x upscaling, grayscale conversion, binary
  thresholding at the fixed cutoff 100 (a pixel value below 100 becomes 0, any other
  255), then text recognition whose result is passed to \<^verbatim>\<open>float\<close>.
\<close>

theorem number_body:
  assumes "fs \<noteq> []" "\<forall>f\<in>set fs. 4 \<le> length (box f)" "type (last fs) = ''number''"
  shows \<open>create_library cls sb dir fs =
    (concat (header_chunks cls sb dir @ concat (map function_chunks fs) @
       [''        im = cropped.filter(ImageFilter.EDGE_ENHANCE_MORE)\<newline>'',
        ''        npcropped = numpy.array(im)[:, :, ::-1].copy()\<newline>'',
        ''        npcropped = cv2.resize(npcropped, (0,0), fx=3, fy=3)\<newline>'',
        ''        im = Image.fromarray(npcropped)\<newline>'',
        ''        im = im.convert('L')\<newline>'',
        ''        im = im.point(lambda x: 0 if x<100 else 255, '1')\<newline>'',
        ''        return float(self.tool.image_to_string(im, lang="eng", builder=pyocr.builders.TextBuilder()))\<newline>'',
        ''\<newline>'']), None)\<close>
  unfolding create_library_ok [OF assms(1,2)] by (simp add: body_chunks_def assms(3))

theorem number_body_witness:
  \<open>create_library ''lib'' None ''./out''
      [\<lparr>name = ''title'', type = ''string'', box = [0, 60, 200, 30], image = None\<rparr>,
       \<lparr>name = ''score'', type = ''number'', box = [10, 10, 100, 40], image = None\<rparr>] =
    (concat (header_chunks ''lib'' None ''./out'' @ concat (map function_chunks
      [\<lparr>name = ''title'', type = ''string'', box = [0, 60, 200, 30], image = None\<rparr>,
       \<lparr>name = ''score'', type = ''number'', box = [10, 10, 100, 40], image = None\<rparr>]) @
       [''        im = cropped.filter(ImageFilter.EDGE_ENHANCE_MORE)\<newline>'',
        ''        npcropped = numpy.array(im)[:, :, ::-1].copy()\<newline>'',
        ''        npcropped = cv2.resize(npcropped, (0,0), fx=3, fy=3)\<newline>'',
        ''        im = Image.fromarray(npcropped)\<newline>'',
        ''        im = im.convert('L')\<newline>'',
        ''        im = im.point(lambda x: 0 if x<100 else 255, '1')\<newline>'',
        ''        return float(self.tool.image_to_string(im, lang="eng", builder=pyocr.builders.TextBuilder()))\<newline>'',
        ''\<newline>'']), None)\<close>
  by (rule number_body) simp_all

text \<open>
  Claim C4 as stated fails: the cutoff is 100, not the midpoint of the range. The sixth
  line of the body written for a rule of kind number compares with 100, so a pixel value
  of 110 becomes 255 where a threshold at the midpoint gives 0.
\<close>

theorem number_cutoff_is_100:
  \<open>body_chunks \<lparr>name = ''score'', type = ''number'', box = [10, 10, 100, 40], image = None\<rparr> ! 5
     = ''        im = im.point(lambda x: 0 if x<100 else 255, '1')\<newline>''
   \<and> number_threshold 110 = 255 \<and> midpoint_threshold 110 = 0\<close>
  by (simp add: body_chunks_def number_threshold_def midpoint_threshold_def)

section \<open>The capture loop\<close>

lemma capture_tick_flag: "capture_screen (fst (capture_tick g tf sw)) = capture_screen (fst sw)"
  by (cases sw) (simp add: capture_tick_def)

lemma capture_ticks_flag: "capture_screen (fst ((capture_tick g tf ^^ k) sw)) = capture_screen (fst sw)"
  by (induction k) (simp_all add: capture_tick_flag)

lemma onclicked_stop_view: "fst (onclicked_stop sw) = fst sw"
  by (cases sw) (simp add: onclicked_stop_def)

lemma capture_loop_returns:
  assumes "capture_loop g tf sw = Some r"
  shows "\<not> capture_screen (fst sw)"
proof (rule capture_loop.raw_induct [where P = "\<lambda>g tf sw r. \<not> capture_screen (fst sw)", OF _ assms])
  fix loop g' tf' sw' r'
  assume ih: "\<And>g tf sw r. loop g tf sw = Some r \<Longrightarrow> \<not> capture_screen (fst sw)"
    and st: "(if capture_screen (fst sw') then loop g' tf' (capture_tick g' tf' sw') else Some sw') = Some r'"
  show "\<not> capture_screen (fst sw')"
  proof
    assume c: "capture_screen (fst sw')"
    with st have "loop g' tf' (capture_tick g' tf' sw') = Some r'" by simp
    then have "\<not> capture_screen (fst (capture_tick g' tf' sw'))" by (rule ih)
    with c show False by (simp add: capture_tick_flag)
  qed
qed

lemma capture_loop_None: "capture_screen (fst sw) \<Longrightarrow> capture_loop g tf sw = None"
  using capture_loop_returns [of g tf sw] by (cases "capture_loop g tf sw") auto

lemma begin_flag: "capture_screen (fst (onclicked_start_begin s w))"
  by (simp add: onclicked_start_begin_def Let_def)

lemma capture_tick_same:
  "same_after n a b \<Longrightarrow> same_after n (capture_tick g tf a) (capture_tick g tf b)"
  by (cases a; cases b) (auto simp: same_after_def capture_tick_def)

lemma capture_ticks_same:
  "same_after n a b \<Longrightarrow> same_after n ((capture_tick g tf ^^ k) a) ((capture_tick g tf ^^ k) b)"
  by (induction k) (simp_all add: capture_tick_same)

lemma begin_same:
  "same_after (Suc (length (trace w)))
     (fst (onclicked_start_begin (s\<lparr>frequency_spin_box := p\<rparr>) w),
      fst (snd (onclicked_start_begin (s\<lparr>frequency_spin_box := p\<rparr>) w)))
     (fst (onclicked_start_begin (s\<lparr>frequency_spin_box := q\<rparr>) w),
      fst (snd (onclicked_start_begin (s\<lparr>frequency_spin_box := q\<rparr>) w)))"
  by (simp add: same_after_def onclicked_start_begin_def Let_def)

lemma begin_folder:
  "snd (snd (onclicked_start_begin (s\<lparr>frequency_spin_box := p\<rparr>) w))
     = snd (snd (onclicked_start_begin (s\<lparr>frequency_spin_box := q\<rparr>) w))"
  by (simp add: onclicked_start_begin_def Let_def)

text \<open>
  Claim C6 (the code does not do this). \<^verbatim>\<open>onclicked_start\<close> never returns. After it has set
  the flag and its loop has made any number of passes, \<^verbatim>\<open>onclicked_stop\<close> leaves the view
  as it is: the flag is still set, so the next pass begins, and the loop never returns.
\<close>

theorem stop_leaves_loop_running:
  "onclicked_start s w = None
   \<and> (case onclicked_start_begin s w of (s1, w1, tf) \<Rightarrow>
      fst (onclicked_stop ((capture_tick g tf ^^ k) (s1, w1))) = fst ((capture_tick g tf ^^ k) (s1, w1))
      \<and> capture_screen (fst (onclicked_stop ((capture_tick g tf ^^ k) (s1, w1))))
      \<and> capture_loop g tf (onclicked_stop ((capture_tick g tf ^^ k) (s1, w1))) = None)"
proof -
  obtain s1 w1 tf where b: "onclicked_start_begin s w = (s1, w1, tf)"
    by (cases "onclicked_start_begin s w") auto
  have "capture_screen s1" using begin_flag [of s w] by (simp add: b)
  then have f: "capture_screen (fst (onclicked_stop ((capture_tick g tf ^^ k) (s1, w1))))"
    by (simp add: onclicked_stop_view capture_ticks_flag)
  have "onclicked_start s w = None"
    using \<open>capture_screen s1\<close>
    by (simp add: onclicked_start_def b capture_loop_None split: box_attr.splits)
  then show ?thesis
    using f capture_loop_None [OF f] by (simp add: b onclicked_stop_view)
qed

lemma capture_ticks_trace:
  "(capture_tick g tf ^^ k) (s, w) =
     (s, w\<lparr>reads := reads w + k,
           trace := trace w @ concat (map (\<lambda>j.
              [g, Save (''./'' @ tf @ ''/'' @ strftime_file (clock w (reads w + j)) @ ''.png'')])
              [0..<k])\<rparr>)"
  by (induction k) (simp_all add: capture_tick_def)

text \<open>
  Claim C7 (the code does not do this). The requested period is read into a local that
  nothing reads. After any number of passes the trace is that of the start followed by
  a grab and a save per pass, and nothing else: nothing stands between a save and the
  next grab. Two runs of \<^verbatim>\<open>onclicked_start\<close> that differ only in the period use the same
  folder, read the clock equally often and have the same trace after the first event
  (the period printed).
\<close>

theorem period_not_used:
  "(case onclicked_start_begin (s\<lparr>frequency_spin_box := p\<rparr>) w of (s1, w1, tf1) \<Rightarrow>
    case onclicked_start_begin (s\<lparr>frequency_spin_box := q\<rparr>) w of (s2, w2, tf2) \<Rightarrow>
      tf1 = tf2
      \<and> trace (snd ((capture_tick g tf1 ^^ k) (s1, w1)))
        = trace w1 @ concat (map (\<lambda>j.
            [g, Save (''./'' @ tf1 @ ''/'' @ strftime_file (clock w1 (reads w1 + j)) @ ''.png'')])
            [0..<k])
      \<and> reads (snd ((capture_tick g tf1 ^^ k) (s1, w1))) = reads (snd ((capture_tick g tf2 ^^ k) (s2, w2)))
      \<and> drop (Suc (length (trace w))) (trace (snd ((capture_tick g tf1 ^^ k) (s1, w1))))
        = drop (Suc (length (trace w))) (trace (snd ((capture_tick g tf2 ^^ k) (s2, w2)))))"
proof -
  obtain s1 w1 tf1 where b1: "onclicked_start_begin (s\<lparr>frequency_spin_box := p\<rparr>) w = (s1, w1, tf1)"
    by (cases "onclicked_start_begin (s\<lparr>frequency_spin_box := p\<rparr>) w") auto
  obtain s2 w2 tf2 where b2: "onclicked_start_begin (s\<lparr>frequency_spin_box := q\<rparr>) w = (s2, w2, tf2)"
    by (cases "onclicked_start_begin (s\<lparr>frequency_spin_box := q\<rparr>) w") auto
  have tf: "tf1 = tf2" using begin_folder [where s = s and p = p and w = w and q = q] by (simp add: b1 b2)
  have "same_after (Suc (length (trace w))) (s1, w1) (s2, w2)"
    using begin_same [where s = s and p = p and w = w and q = q] by (simp add: b1 b2)
  then have sa: "same_after (Suc (length (trace w)))
      ((capture_tick g tf1 ^^ k) (s1, w1)) ((capture_tick g tf1 ^^ k) (s2, w2))"
    by (rule capture_ticks_same)
  have t: "trace (snd ((capture_tick g tf1 ^^ k) (s1, w1)))
        = trace w1 @ concat (map (\<lambda>j.
            [g, Save (''./'' @ tf1 @ ''/'' @ strftime_file (clock w1 (reads w1 + j)) @ ''.png'')])
            [0..<k])"
    by (simp add: capture_ticks_trace)
  have r: "reads (snd ((capture_tick g tf1 ^^ k) (s1, w1))) = reads (snd ((capture_tick g tf2 ^^ k) (s2, w2)))"
    using sa by (simp add: same_after_def tf)
  have d: "drop (Suc (length (trace w))) (trace (snd ((capture_tick g tf1 ^^ k) (s1, w1))))
        = drop (Suc (length (trace w))) (trace (snd ((capture_tick g tf2 ^^ k) (s2, w2))))"
    using sa by (simp add: same_after_def tf)
  show ?thesis
    unfolding b1 b2 prod.case using tf t r d by (intro conjI)
qed

section \<open>A record of unknown kind\<close>

lemma load_loop_reads_record:
  assumes "j < length ls" "4 \<le> length (ls ! j)" "take 3 (ls ! j) = ''# f''"
    "py_eval (drop 4 (ls ! j)) = Inl x"
  shows "i \<le> j \<Longrightarrow>
     \<forall>k\<in>{i..<j}. (class_tagged (ls ! k) \<longrightarrow> k + 8 < j) \<and> (function_tagged (ls ! k) \<longrightarrow> k + 2 < j) \<Longrightarrow>
     load_loop ls i d acc
       = (case load_loop (take j ls) i d acc of Inl e \<Rightarrow> Inl e | Inr r \<Rightarrow> Inl x)"
proof (induction "j - i" arbitrary: i d acc rule: less_induct)
  case less
  note cov = less.prems(2)
  have sub: "\<forall>k\<in>{i + m..<j}. (class_tagged (ls ! k) \<longrightarrow> k + 8 < j)
      \<and> (function_tagged (ls ! k) \<longrightarrow> k + 2 < j)" for m
    using cov by simp
  show ?case
  proof (cases "i = j")
    case True
    have "load_loop (take j ls) j d acc = Inr (d, acc)"
      by (simp add: load_loop.simps [of "take j ls" j])
    moreover have "load_loop ls j d acc = Inl x"
      using assms by (simp add: load_loop.simps [of ls j])
    ultimately show ?thesis using True by simp
  next
    case False
    with less.prems(1) have lt: "i < j" by simp
    with assms(1) have il: "i < length ls" by simp
    have it: "i < length (take j ls)" using lt assms(1) by simp
    have nth: "take j ls ! i = ls ! i" using lt by simp
    have step: "load_loop ls (i + m) d' acc'
        = (case load_loop (take j ls) (i + m) d' acc' of Inl e \<Rightarrow> Inl e | Inr r \<Rightarrow> Inl x)"
      if "0 < m" "i + m \<le> j" for m d' acc'
      using that by (intro less.hyps sub) simp_all
    show ?thesis
    proof (cases "length (ls ! i) < 4")
      case short: True
      have "load_loop ls (i + 1) d acc
          = (case load_loop (take j ls) (i + 1) d acc of Inl e \<Rightarrow> Inl e | Inr r \<Rightarrow> Inl x)"
        using lt by (intro step) simp_all
      with il it nth short show ?thesis
        by (simp add: load_loop.simps [of ls i] load_loop.simps [of "take j ls" i])
    next
      case long: False
      show ?thesis
      proof (cases "take 3 (ls ! i) = ''# c''")
        case c: True
        with long have "class_tagged (ls ! i)" by (simp add: class_tagged_def)
        with cov lt have far: "i + 8 < j" by simp
        show ?thesis
        proof (cases "literal_eval (drop 4 (ls ! i))")
          case (Inl e)
          with il it nth long c show ?thesis
            by (simp add: load_loop.simps [of ls i] load_loop.simps [of "take j ls" i])
        next
          case (Inr cd)
          show ?thesis
          proof (cases "getitem_str cd ''directory''")
            case gl: (Inl e)
            with Inr il it nth long c show ?thesis
              by (simp add: load_loop.simps [of ls i] load_loop.simps [of "take j ls" i])
          next
            case gr: (Inr v)
            have "load_loop ls (i + (8 + 1)) v acc
                = (case load_loop (take j ls) (i + (8 + 1)) v acc of Inl e \<Rightarrow> Inl e | Inr r \<Rightarrow> Inl x)"
              using far by (intro step) simp_all
            then have "load_loop ls (i + 8 + 1) v acc
                = (case load_loop (take j ls) (i + 8 + 1) v acc of Inl e \<Rightarrow> Inl e | Inr r \<Rightarrow> Inl x)"
              by (simp only: add.assoc)
            with gr Inr il it nth long c show ?thesis
              by (simp add: load_loop.simps [of ls i] load_loop.simps [of "take j ls" i])
          qed
        qed
      next
        case nc: False
        show ?thesis
        proof (cases "take 3 (ls ! i) = ''# f''")
          case f: True
          with long have "function_tagged (ls ! i)" by (simp add: function_tagged_def)
          with cov lt have far: "i + 2 < j" by simp
          show ?thesis
          proof (cases "py_eval (drop 4 (ls ! i))")
            case (Inl e)
            with il it nth long nc f show ?thesis
              by (simp add: load_loop.simps [of ls i] load_loop.simps [of "take j ls" i])
          next
            case (Inr v)
            have "load_loop ls (i + (2 + 1)) d (acc @ [v])
                = (case load_loop (take j ls) (i + (2 + 1)) d (acc @ [v]) of Inl e \<Rightarrow> Inl e | Inr r \<Rightarrow> Inl x)"
              using far by (intro step) simp_all
            then have "load_loop ls (i + 2 + 1) d (acc @ [v])
                = (case load_loop (take j ls) (i + 2 + 1) d (acc @ [v]) of Inl e \<Rightarrow> Inl e | Inr r \<Rightarrow> Inl x)"
              by (simp only: add.assoc)
            with Inr il it nth long nc f show ?thesis
              by (simp add: load_loop.simps [of ls i] load_loop.simps [of "take j ls" i])
          qed
        next
          case nf: False
          have "load_loop ls (i + 1) d acc
              = (case load_loop (take j ls) (i + 1) d acc of Inl e \<Rightarrow> Inl e | Inr r \<Rightarrow> Inl x)"
            using lt by (intro step) simp_all
          with il it nth long nc nf show ?thesis
            by (simp add: load_loop.simps [of ls i] load_loop.simps [of "take j ls" i])
        qed
      qed
    qed
  qed
qed

text \<open>
  Claim C3, as amended. Take an artifact with a function-level metadata line that the
  scan cannot jump over (index 3 or more, no class-level tag on the eight lines before
  it, no function-level tag on the two lines before it), whose payload is a
  \<^verbatim>\<open>BoxFunction\<close> record of four evaluated fields with a kind outside the closed set.
  Decoding it returns no rule list: it fails with the error of the first record before
  that line that does not decode, and with \<^verbatim>\<open>UnknownKind\<close> when the lines before it
  decode, whatever rules were collected from them. (The error is raised by the
  constructor, which the decoder does not catch.)
\<close>

theorem unknown_kind_read_rejected:
  assumes "j < length (readlines s)" "in_scan (readlines s) j"
    "4 \<le> length (readlines s ! j)" "take 3 (readlines s ! j) = ''# f''"
    "py_parse (drop 4 (readlines s ! j)) = Some (ECall ''BoxFunction'' [n, k, b, t])"
    "eval_list [n, k, b, t] = Inr [nv, kv, bv, tv]"
    "kv \<notin> set (map PStr kinds)"
  shows "load_library s
       = (case load_loop (take j (readlines s)) 3 PNone [] of
            Inl e \<Rightarrow> Inl e | Inr r \<Rightarrow> Inl UnknownKind)
     \<and> (\<forall>r. load_library s \<noteq> Inr r)"
proof -
  have "py_eval (drop 4 (readlines s ! j)) = Inl UnknownKind"
    using assms(5,6,7) by (simp add: py_eval_def)
  with assms(1,3,4)
  have "load_loop (readlines s) 3 PNone []
       = (case load_loop (take j (readlines s)) 3 PNone [] of
            Inl e \<Rightarrow> Inl e | Inr r \<Rightarrow> Inl UnknownKind)"
    using assms(2) by (intro load_loop_reads_record) (simp_all add: in_scan_def)
  then show ?thesis
    by (auto simp: load_library_def split: sum.splits)
qed

text \<open>
  An artifact with a rule of kind \<^verbatim>\<open>number\<close> on its fourth line and a record of kind
  \<^verbatim>\<open>barcode\<close> on its seventh: the first rule is decoded, and nothing is returned.
\<close>

theorem unknown_kind_read_rejected_witness:
  "load_loop (take 6
     [''import random\<newline>'',
      ''import numpy\<newline>'',
      ''import cv2\<newline>'',
      ''# f BoxFunction('price', 'number', [0, 0, 50, 20], None)\<newline>'',
      ''cropped = self.img.crop([0, 0, 50, 20])\<newline>'',
      ''\<newline>'',
      ''# f BoxFunction('total', 'barcode', [5, 5, 60, 20], None)\<newline>'']) 3 PNone []
     = Inr (PNone, [PBoxFunction (PStr ''price'') (PStr ''number'')
          (PList [PInt 0, PInt 0, PInt 50, PInt 20]) PNone])
   \<and> load_library (concat
     [''import random\<newline>'',
      ''import numpy\<newline>'',
      ''import cv2\<newline>'',
      ''# f BoxFunction('price', 'number', [0, 0, 50, 20], None)\<newline>'',
      ''cropped = self.img.crop([0, 0, 50, 20])\<newline>'',
      ''\<newline>'',
      ''# f BoxFunction('total', 'barcode', [5, 5, 60, 20], None)\<newline>'']) = Inl UnknownKind"
proof -
  let ?g = "''# f BoxFunction('price', 'number', [0, 0, 50, 20], None)\<newline>''"
  let ?l = "''# f BoxFunction('total', 'barcode', [5, 5, 60, 20], None)\<newline>''"
  let ?c = "''cropped = self.img.crop([0, 0, 50, 20])\<newline>''"
  let ?ls = "[''import random\<newline>'', ''import numpy\<newline>'', ''import cv2\<newline>'', ?g, ?c, ''\<newline>'', ?l]"
  let ?v = "PBoxFunction (PStr ''price'') (PStr ''number'') (PList [PInt 0, PInt 0, PInt 50, PInt 20]) PNone"
  have r: "readlines (concat ?ls) = ?ls"
    by (rule readlines_Nil_lines) (simp add: is_line_def)
  have p: "py_parse (drop 4 (?ls ! 6)) = Some (ECall ''BoxFunction''
      [EStr ''total'', EStr ''barcode'', EList [ENum 5, ENum 5, ENum 60, ENum 20], ENone])"
    by code_simp
  have e: "eval_list [EStr ''total'', EStr ''barcode'', EList [ENum 5, ENum 5, ENum 60, ENum 20], ENone]
      = Inr [PStr ''total'', PStr ''barcode'', PList [PInt 5, PInt 5, PInt 60, PInt 20], PNone]"
    by simp
  have g: "py_eval ''BoxFunction('price', 'number', [0, 0, 50, 20], None)\<newline>'' = Inr ?v"
    by code_simp
  have s: "in_scan ?ls 6"
    by (simp add: in_scan_def class_tagged_def function_tagged_def atLeastLessThan_upt
        upt_conv_Cons)
  have "load_loop [?g, ?c, ''\<newline>''] 0 PNone [] = load_loop (drop 2 [?c, ''\<newline>'']) 0 PNone ([] @ [?v])"
    by (rule load_loop_function) (simp_all add: g)
  then have pre: "load_loop (take 6 ?ls) 3 PNone [] = Inr (PNone, [?v])"
    by (subst load_loop_drop) (simp add: load_loop_Nil)
  have "load_library (concat ?ls)
      = (case load_loop (take 6 (readlines (concat ?ls))) 3 PNone [] of
            Inl e \<Rightarrow> Inl e | Inr r \<Rightarrow> Inl UnknownKind)"
    unfolding r
    by (rule unknown_kind_read_rejected [where s = "concat ?ls" and j = 6, unfolded r,
          OF _ s _ _ p e, THEN conjunct1])
      (simp_all add: kinds_def)
  then have "load_library (concat ?ls) = Inl UnknownKind"
    unfolding r pre by simp
  with pre show ?thesis by simp
qed

text \<open>
  Claim C3 as stated fails: an artifact may contain a record of kind \<^verbatim>\<open>barcode\<close> on a
  line the scan does not read (one of the first three lines, one of the eight lines
  after a class-level line, one of the two lines after a function-level line), and
  then the decode returns, in the last case with a rule list.
\<close>

theorem unknown_kind_skipped_accepted:
  "load_library (concat
     [''# f BoxFunction('total', 'barcode', [5, 5, 60, 20], None)\<newline>'',
      ''import numpy\<newline>'',
      ''import cv2\<newline>'']) = Inr (PNone, [])
   \<and> load_library (concat
     [''import random\<newline>'',
      ''import numpy\<newline>'',
      ''import cv2\<newline>'',
      ''# c {'screen_box': None, 'directory': 'out'}\<newline>'',
      ''# f BoxFunction('total', 'barcode', [5, 5, 60, 20], None)\<newline>'']) = Inr (PStr ''out'', [])
   \<and> load_library (concat
     [''import random\<newline>'',
      ''import numpy\<newline>'',
      ''import cv2\<newline>'',
      ''# f BoxFunction('price', 'number', [0, 0, 50, 20], None)\<newline>'',
      ''# f BoxFunction('total', 'barcode', [5, 5, 60, 20], None)\<newline>''])
     = Inr (PNone, [PBoxFunction (PStr ''price'') (PStr ''number'')
          (PList [PInt 0, PInt 0, PInt 50, PInt 20]) PNone])"
proof (intro conjI)
  let ?l = "''# f BoxFunction('total', 'barcode', [5, 5, 60, 20], None)\<newline>''"
  let ?a = "[?l, ''import numpy\<newline>'', ''import cv2\<newline>'']"
  have r: "readlines (concat ?a) = ?a"
    by (rule readlines_Nil_lines) (simp add: is_line_def)
  show "load_library (concat ?a) = Inr (PNone, [])"
    unfolding load_library_drop r by (simp add: load_loop_Nil)
next
  let ?l = "''# f BoxFunction('total', 'barcode', [5, 5, 60, 20], None)\<newline>''"
  let ?c = "''# c {'screen_box': None, 'directory': 'out'}\<newline>''"
  let ?b = "[''import random\<newline>'', ''import numpy\<newline>'', ''import cv2\<newline>'', ?c, ?l]"
  have r: "readlines (concat ?b) = ?b"
    by (rule readlines_Nil_lines) (simp add: is_line_def)
  have e: "literal_eval ''{'screen_box': None, 'directory': 'out'}\<newline>''
      = Inr (PDict [(PStr ''screen_box'', PNone), (PStr ''directory'', PStr ''out'')])"
    by code_simp
  have d: "drop 3 ?b = [?c, ?l]" by simp
  have "load_loop [?c, ?l] 0 PNone [] = load_loop (drop 8 [?l]) 0 (PStr ''out'') []"
    by (rule load_loop_class [where cd = "PDict [(PStr ''screen_box'', PNone), (PStr ''directory'', PStr ''out'')]"])
      (simp_all add: e)
  then show "load_library (concat ?b) = Inr (PStr ''out'', [])"
    unfolding load_library_drop r d by (simp add: load_loop_Nil)
next
  let ?l = "''# f BoxFunction('total', 'barcode', [5, 5, 60, 20], None)\<newline>''"
  let ?g = "''# f BoxFunction('price', 'number', [0, 0, 50, 20], None)\<newline>''"
  let ?v = "PBoxFunction (PStr ''price'') (PStr ''number'') (PList [PInt 0, PInt 0, PInt 50, PInt 20]) PNone"
  let ?c = "[''import random\<newline>'', ''import numpy\<newline>'', ''import cv2\<newline>'', ?g, ?l]"
  have r: "readlines (concat ?c) = ?c"
    by (rule readlines_Nil_lines) (simp add: is_line_def)
  have g: "py_eval ''BoxFunction('price', 'number', [0, 0, 50, 20], None)\<newline>'' = Inr ?v"
    by code_simp
  have d: "drop 3 ?c = [?g, ?l]" by simp
  have "load_loop [?g, ?l] 0 PNone [] = load_loop (drop 2 [?l]) 0 PNone ([] @ [?v])"
    by (rule load_loop_function) (simp_all add: g)
  then show "load_library (concat ?c) = Inr (PNone, [?v])"
    unfolding load_library_drop r d by (simp add: load_loop_Nil)
qed

end
